theory Spec2Isabelle
  imports Main
begin


section \<open>JavaScript strings and numbers\<close>

text \<open>
  A JavaScript string is a sequence of UTF-16 code units.  The model uses \<open>string\<close>
  and reads every \<open>char\<close> as the code unit of the same number, so it covers the strings
  whose code units are below 256 (ASCII and Latin-1, enough for the Portuguese labels the
  program compares against).  \<open>length\<close> is then the \<open>.length\<close> of the source.
\<close>

definition isWhiteSpace :: "char \<Rightarrow> bool" where
  \<comment> \<open>WhiteSpace and LineTerminator code units below 256: TAB, LF, VT, FF, CR, SP, NBSP\<close>
  "isWhiteSpace c = (of_char c \<in> {9, 10, 11, 12, 13, 32, 160 :: nat})"

definition trim :: "string \<Rightarrow> string" where
  \<comment> \<open>String.prototype.trim\<close>
  "trim s = rev (dropWhile isWhiteSpace (rev (dropWhile isWhiteSpace s)))"

definition lowerChar :: "char \<Rightarrow> char" where
  \<comment> \<open>A-Z and the Latin-1 capitals U+00C0..U+00DE (without the sign U+00D7) move up by 32\<close>
  "lowerChar c =
     (let n = of_char c :: nat
      in if (65 \<le> n \<and> n \<le> 90) \<or> (192 \<le> n \<and> n \<le> 222 \<and> n \<noteq> 215)
         then char_of (n + 32) else c)"

definition toLowerCase :: "string \<Rightarrow> string" where
  \<comment> \<open>String.prototype.toLowerCase\<close>
  "toLowerCase s = map lowerChar s"

fun startsWith :: "string \<Rightarrow> string \<Rightarrow> bool" where
  "startsWith s [] = True"
| "startsWith [] (k # ks) = False"
| "startsWith (c # cs) (k # ks) = (c = k \<and> startsWith cs ks)"

fun includes_str :: "string \<Rightarrow> string \<Rightarrow> bool" where
  \<comment> \<open>String.prototype.includes: the key occurs as a contiguous run\<close>
  "includes_str [] k = (k = [])"
| "includes_str (c # cs) k = (startsWith (c # cs) k \<or> includes_str cs k)"

definition orStr :: "string \<Rightarrow> string \<Rightarrow> string" where
  \<comment> \<open>\<open>a || b\<close> on two strings: the empty string is falsy\<close>
  "orStr a b = (if a = [] then b else a)"

fun digitsOf :: "nat \<Rightarrow> string" where
  "digitsOf n = (if n < 10 then [char_of (48 + n)] else digitsOf (n div 10) @ [char_of (48 + n mod 10)])"

declare digitsOf.simps [simp del]

definition String :: "int \<Rightarrow> string" where
  \<comment> \<open>\<open>String(n)\<close> for an integral number below 10^21 in magnitude: decimal digits, a
      minus sign when negative\<close>
  "String n = (if n < 0 then CHR ''-'' # digitsOf (nat (- n)) else digitsOf (nat n))"

definition numberOf :: "string \<Rightarrow> nat" where
  \<comment> \<open>the number that a run of decimal digits writes (used to read a display id back)\<close>
  "numberOf s = foldl (\<lambda>a c. 10 * a + (of_char c - 48)) 0 s"

definition padStart :: "nat \<Rightarrow> char \<Rightarrow> string \<Rightarrow> string" where
  \<comment> \<open>\<open>s.padStart(n, c)\<close> with a one-character filler\<close>
  "padStart n c s = replicate (n - length s) c @ s"


section \<open>JavaScript numbers and dates used by the deadline classifier\<close>

text \<open>
  The numbers that reach the classifier are integers or NaN; a number is an \<open>int option\<close>
  with \<open>None\<close> for NaN.  A \<open>Date\<close> is its time value: milliseconds since the epoch, or
  NaN for an invalid date.  The exact integers stand for the doubles of the source: the
  two agree below \<open>2 ^ 53\<close>, and every date component large enough to be rounded gives a
  time value outside the range that \<open>TimeClip\<close> admits in either reading.

  The local time zone is a fixed offset \<open>tza\<close> in milliseconds, local time being UTC plus
  \<open>tza\<close> (no daylight saving, as in Brazil since 2019).  Zones that change their offset
  are outside the model: across such a change the two local midnights that the source
  compares are not a whole number of days apart.
\<close>

definition msPerDay :: int where
  "msPerDay = 1000 * 3600 * 24"

definition TimeClip :: "int \<Rightarrow> int option" where
  "TimeClip t = (if \<bar>t\<bar> > 8640000000000000 then None else Some t)"

definition DayFromYear :: "int \<Rightarrow> int" where
  "DayFromYear y =
     365 * (y - 1970) + (y - 1969) div 4 - (y - 1901) div 100 + (y - 1601) div 400"

definition InLeapYear :: "int \<Rightarrow> bool" where
  "InLeapYear y = (y mod 4 = 0 \<and> (y mod 100 \<noteq> 0 \<or> y mod 400 = 0))"

definition monthStart :: "int \<Rightarrow> bool \<Rightarrow> int" where
  \<comment> \<open>days of the year before the first day of month \<open>mn\<close> (0 to 11)\<close>
  "monthStart mn leap =
     [0, 31, 59, 90, 120, 151, 181, 212, 243, 273, 304, 334] ! nat mn
     + (if leap \<and> 2 \<le> mn then 1 else 0)"

definition DaysInMonth :: "int \<Rightarrow> int \<Rightarrow> int" where
  \<comment> \<open>length of month \<open>mn\<close> (0 to 11) of year \<open>y\<close>\<close>
  "DaysInMonth y mn =
     (if mn = 1 then (if InLeapYear y then 29 else 28)
      else [31, 28, 31, 30, 31, 30, 31, 31, 30, 31, 30, 31] ! nat mn)"

definition MakeDay :: "int \<Rightarrow> int \<Rightarrow> int \<Rightarrow> int" where
  \<comment> \<open>the day number of day \<open>date\<close> of month \<open>month\<close> (from 0, may overflow) of \<open>year\<close>\<close>
  "MakeDay year month date =
     (let ym = year + month div 12;
          mn = month mod 12
      in DayFromYear ym + monthStart mn (InLeapYear ym) + date - 1)"

definition Date_ymd :: "int \<Rightarrow> int option \<Rightarrow> int option \<Rightarrow> int option \<Rightarrow> int option" where
  \<comment> \<open>\<open>new Date(year, month, date)\<close>: local midnight of that day; years 0 to 99 mean 1900 to 1999\<close>
  "Date_ymd tza year month date =
     (case (year, month, date) of
        (Some y, Some m, Some dt) \<Rightarrow>
          let yr = (if 0 \<le> y \<and> y \<le> 99 then 1900 + y else y)
          in TimeClip (MakeDay yr m dt * msPerDay - tza)
      | _ \<Rightarrow> None)"

definition isDigit :: "char \<Rightarrow> bool" where
  "isDigit c = (48 \<le> (of_char c :: nat) \<and> (of_char c :: nat) \<le> 57)"

definition digitValue :: "char \<Rightarrow> nat option" where
  \<comment> \<open>the value of a digit of radix up to 16\<close>
  "digitValue c =
     (let n = of_char c :: nat
      in if 48 \<le> n \<and> n \<le> 57 then Some (n - 48)
         else if 97 \<le> n \<and> n \<le> 102 then Some (n - 87)
         else if 65 \<le> n \<and> n \<le> 70 then Some (n - 55)
         else None)"

definition isRadixDigit :: "nat \<Rightarrow> char \<Rightarrow> bool" where
  "isRadixDigit R c = (case digitValue c of None \<Rightarrow> False | Some v \<Rightarrow> v < R)"

definition parseInt :: "string \<Rightarrow> int option" where
  \<comment> \<open>\<open>parseInt(s)\<close> without a radix: blanks, a sign, 0x or 0X for hexadecimal, then the
      longest run of digits; NaN when that run is empty\<close>
  "parseInt s =
     (let S = dropWhile isWhiteSpace s;
          sign = (if S \<noteq> [] \<and> hd S = CHR ''-'' then -1 else 1 :: int);
          S1 = (if S \<noteq> [] \<and> (hd S = CHR ''+'' \<or> hd S = CHR ''-'') then tl S else S);
          hex = (2 \<le> length S1 \<and> (take 2 S1 = ''0x'' \<or> take 2 S1 = ''0X''));
          R = (if hex then 16 else 10 :: nat);
          S2 = (if hex then drop 2 S1 else S1);
          Z = takeWhile (isRadixDigit R) S2
      in if Z = [] then None
         else Some (sign * int (foldl (\<lambda>a c. R * a + the (digitValue c)) 0 Z)))"

definition isoDateOnly :: "string \<Rightarrow> int option" where
  \<comment> \<open>the date-only form YYYY-MM-DD of the date-time string format, read as UTC midnight;
      only days that exist in their month count as instances of the format\<close>
  "isoDateOnly s =
     (if length s = 10 \<and> s ! 4 = CHR ''-'' \<and> s ! 7 = CHR ''-''
         \<and> list_all isDigit (take 4 s) \<and> list_all isDigit (take 2 (drop 5 s))
         \<and> list_all isDigit (drop 8 s)
      then
        let y = int (numberOf (take 4 s));
            m = int (numberOf (take 2 (drop 5 s)));
            d = int (numberOf (drop 8 s))
        in if 1 \<le> m \<and> m \<le> 12 \<and> 1 \<le> d \<and> d \<le> DaysInMonth y (m - 1)
           then Some (MakeDay y (m - 1) d * msPerDay) else None
      else None)"

definition Date_string :: "(string \<Rightarrow> int option) \<Rightarrow> string \<Rightarrow> int option" where
  \<comment> \<open>\<open>new Date(s)\<close>: \<open>Date.parse\<close> fixes the result for the date-only form; what the engine
      makes of any other text is the argument \<open>legacy\<close>\<close>
  "Date_string legacy s =
     (case isoDateOnly s of
        Some t \<Rightarrow> TimeClip t
      | None \<Rightarrow> (case legacy s of None \<Rightarrow> None | Some t \<Rightarrow> TimeClip t))"

definition setHours0 :: "int \<Rightarrow> int option \<Rightarrow> int option" where
  \<comment> \<open>\<open>d.setHours(0, 0, 0, 0)\<close>: the local midnight of the local day of \<open>d\<close>\<close>
  "setHours0 tza d =
     (case d of
        None \<Rightarrow> None
      | Some t \<Rightarrow> TimeClip (((t + tza) div msPerDay) * msPerDay - tza))"

definition numLess :: "int option \<Rightarrow> int option \<Rightarrow> bool" where
  \<comment> \<open>\<open>a < b\<close> on numbers: false when either is NaN\<close>
  "numLess a b = (case (a, b) of (Some x, Some y) \<Rightarrow> x < y | _ \<Rightarrow> False)"

definition numLe :: "int option \<Rightarrow> int option \<Rightarrow> bool" where
  \<comment> \<open>\<open>a <= b\<close> on numbers: false when either is NaN\<close>
  "numLe a b = (case (a, b) of (Some x, Some y) \<Rightarrow> x \<le> y | _ \<Rightarrow> False)"

definition numSub :: "int option \<Rightarrow> int option \<Rightarrow> int option" where
  "numSub a b = (case (a, b) of (Some x, Some y) \<Rightarrow> Some (x - y) | _ \<Rightarrow> None)"

definition ceilDiv :: "int option \<Rightarrow> int \<Rightarrow> int option" where
  \<comment> \<open>\<open>Math.ceil(a / n)\<close> for a positive integer \<open>n\<close>\<close>
  "ceilDiv a n = (case a of None \<Rightarrow> None | Some x \<Rightarrow> Some (- ((- x) div n)))"

fun split_dash_slash :: "string \<Rightarrow> string list" where
  \<comment> \<open>\<open>s.split(/[-/]/)\<close>: the pieces between the occurrences of - and /\<close>
  "split_dash_slash [] = [[]]"
| "split_dash_slash (c # cs) =
     (if c = CHR ''-'' \<or> c = CHR ''/'' then [] # split_dash_slash cs
      else (c # hd (split_dash_slash cs)) # tl (split_dash_slash cs))"

section \<open>The deadline classifier and its three copies\<close>

datatype deadlineStatus = overdue | due_soon | on_track | completed | none

definition concluido :: string where
  \<comment> \<open>the keyword of the source for 'concluded': U+00ED is its accented i\<close>
  "concluido = ''conclu'' @ [CHR 0xED] @ ''do''"

definition terminalKeywords :: "string list" where
  "terminalKeywords = [concluido, ''finalizado'', ''transitado em julgado'', ''arquivado'']"

definition terminalLabel :: "string \<Rightarrow> bool" where
  \<comment> \<open>the lower-cased label contains one of the terminal keywords\<close>
  "terminalLabel status \<longleftrightarrow> list_ex (includes_str (toLowerCase status)) terminalKeywords"

definition bucket :: "int \<Rightarrow> int \<Rightarrow> int option \<Rightarrow> deadlineStatus" where
  \<comment> \<open>the lines that the three copies share word for word, from \<open>const today = new Date()\<close>
      to the end; \<open>now\<close> is the time value of \<open>new Date()\<close>\<close>
  "bucket tza now deadline0 =
     (let deadline = setHours0 tza deadline0;
          today = setHours0 tza (Some now)
      in if deadline = None then none
         else if numLess deadline today then overdue
         else
           let timeDiff = numSub deadline today;
               daysDiff = ceilDiv timeDiff (1000 * 3600 * 24)
           in if numLe daysDiff (Some 7) then due_soon else on_track)"

definition deadline_Spreadsheet :: "(string \<Rightarrow> int option) \<Rightarrow> int \<Rightarrow> string \<Rightarrow> int option" where
  \<comment> \<open>the spreadsheet copy's own reading of the date text: three pieces are taken as
      YYYY-MM-DD when the first has four characters and as DD/MM/YYYY otherwise\<close>
  "deadline_Spreadsheet legacy tza dateString =
     (let parts = split_dash_slash dateString
      in if length parts = 3 then
           (if length (parts ! 0) = 4
            then Date_ymd tza (parseInt (parts ! 0))
                   (numSub (parseInt (parts ! 1)) (Some 1))
                   (parseInt (parts ! 2))
            else Date_ymd tza (parseInt (parts ! 2))
                   (numSub (parseInt (parts ! 1)) (Some 1))
                   (parseInt (parts ! 0)))
         else Date_string legacy dateString)"

definition getDeadlineStatus_Spreadsheet ::
  "(string \<Rightarrow> int option) \<Rightarrow> int \<Rightarrow> int \<Rightarrow> string option \<Rightarrow> string \<Rightarrow> deadlineStatus" where
  \<comment> \<open>the copy in the spreadsheet view; an absent \<open>dateString\<close> is \<open>None\<close>\<close>
  "getDeadlineStatus_Spreadsheet legacy tza now dateString status =
     (let lowerStatus = toLowerCase status
      in if includes_str lowerStatus concluido \<or> includes_str lowerStatus ''finalizado''
            \<or> includes_str lowerStatus ''transitado em julgado''
            \<or> includes_str lowerStatus ''arquivado''
         then completed
         else (case dateString of
                 None \<Rightarrow> none
               | Some ds \<Rightarrow>
                   if ds = [] then none
                   else bucket tza now (deadline_Spreadsheet legacy tza ds)))"

definition getDeadlineStatus_Kpi ::
  "(string \<Rightarrow> int option) \<Rightarrow> int \<Rightarrow> int \<Rightarrow> string option \<Rightarrow> string \<Rightarrow> deadlineStatus" where
  \<comment> \<open>the copy in the personal KPI dashboard\<close>
  "getDeadlineStatus_Kpi legacy tza now dateString status =
     (let lowerStatus = toLowerCase status
      in if includes_str lowerStatus concluido \<or> includes_str lowerStatus ''finalizado''
            \<or> includes_str lowerStatus ''transitado em julgado''
            \<or> includes_str lowerStatus ''arquivado''
         then completed
         else (case dateString of
                 None \<Rightarrow> none
               | Some ds \<Rightarrow>
                   if ds = [] then none
                   else bucket tza now (Date_string legacy ds)))"

definition getDeadlineStatus_GlobalKpi ::
  "(string \<Rightarrow> int option) \<Rightarrow> int \<Rightarrow> int \<Rightarrow> string option \<Rightarrow> string \<Rightarrow> deadlineStatus" where
  \<comment> \<open>the copy in the global KPI dashboard\<close>
  "getDeadlineStatus_GlobalKpi legacy tza now dateString status =
     (let lowerStatus = toLowerCase status
      in if includes_str lowerStatus concluido \<or> includes_str lowerStatus ''finalizado''
            \<or> includes_str lowerStatus ''transitado em julgado''
            \<or> includes_str lowerStatus ''arquivado''
         then completed
         else (case dateString of
                 None \<Rightarrow> none
               | Some ds \<Rightarrow>
                   if ds = [] then none
                   else bucket tza now (Date_string legacy ds)))"

definition localDay :: "int \<Rightarrow> int \<Rightarrow> int" where
  \<comment> \<open>the number of the local calendar day that holds the instant \<open>t\<close>\<close>
  "localDay tza t = (t + tza) div msPerDay"

definition dayBucket :: "int \<Rightarrow> int \<Rightarrow> deadlineStatus" where
  \<comment> \<open>the bucket of a due day against today, both as day numbers\<close>
  "dayBucket due today =
     (if due < today then overdue else if due - today \<le> 7 then due_soon else on_track)"

definition brasiliaTZA :: int where
  \<comment> \<open>UTC-3\<close>
  "brasiliaTZA = - (3 * 3600 * 1000)"

definition noon_2024_01_15 :: int where
  \<comment> \<open>2024-01-15 12:00 in UTC-3, that is 15:00 UTC\<close>
  "noon_2024_01_15 = 19737 * msPerDay + 15 * 3600 * 1000"

definition noLegacy :: "string \<Rightarrow> int option" where
  \<comment> \<open>an engine that rejects every text outside the date-only form\<close>
  "noLegacy s = None"

definition berlinTZA :: int where
  \<comment> \<open>UTC+1\<close>
  "berlinTZA = 3600 * 1000"

definition sampleLegacy :: "string \<Rightarrow> int option" where
  \<comment> \<open>an engine that reads the text 'Jan 15, 2024' as local midnight in UTC-3 and rejects
      every other text outside the date-only form\<close>
  "sampleLegacy s = (if s = ''Jan 15, 2024'' then Some 1705287600000 else None)"


section \<open>Data model (types.ts)\<close>

record tramitationEntry =
  fromUser :: string
  toUser :: string
  timestamp :: string
  deadline :: string

record attachment =
  id_att :: string
  fileName :: string
  fileType :: string
  fileSize :: int
  content :: string
  uploadedBy :: string
  timestamp_att :: string

datatype prioridade_t = Alta | Media | Baixa

datatype simNao = Sim | Nao

record caseData =
  id_case :: int
  id2 :: string
  tribunal :: string
  processoNumero :: string
  autor :: string
  reu :: string
  trib :: string
  varaComarca :: string
  materia :: string
  ownerName :: string
  name :: string
  email :: string
  coResponsibleName :: "string option"
  tramitationLog :: "tramitationEntry list option"
  attachments :: "attachment list option"
  dataNomeacao :: string
  dataInicial :: string
  prazoDeterminado :: string
  dataDesignada :: string
  dataFinal :: string
  startHour :: string
  finishHour :: string
  dataFinalCorridos :: string
  diasUteis :: int
  prioridade :: prioridade_t
  dataAtribuida :: string
  fases :: string
  status :: string
  segredoDeJustica :: simNao
  naturezaAcao :: string
  valorDaAcao :: string

datatype permission_t = Adm | Usr

record user =
  id_user :: int
  name_user :: string
  email_user :: string
  password_user :: "string option"
  permission_user :: permission_t

section \<open>Application state and user-visible messages (App.tsx)\<close>

text \<open>
  The React component keeps \<open>users\<close> and \<open>cases\<close> in state and the id counter in the ref
  \<open>lastCaseId\<close>.  The handlers below are only handed to the views once \<open>currentUser\<close> is
  set (the component returns the login form otherwise), so the state holds a user.  Each
  handler is one event: the \<open>cases\<close> it reads and the \<open>prev\<close> its updater receives are the
  same list.  A handler returns the messages it shows with \<open>alert\<close>, in order, and the
  state after it.  The clock is the argument \<open>now\<close>: the ISO text that
  \<open>new Date().toISOString()\<close> yields during the event.
\<close>

record app_state =
  currentUser :: user
  users :: "user list"
  cases :: "caseData list"
  lastCaseId :: int

datatype alert =
    DuplicateProcessOnAdd string
  | CaseCreated string
  | DuplicateProcessOnUpdate string
  | FileTooLarge
  | UserNotFound string
  | AttachmentReadEmpty
  | AttachmentReadError
  | ImportReport nat "string list" "string list"

definition ownerMsTributario :: string where
  \<comment> \<open>the owner name of the source: U+00E1 is its accented a\<close>
  "ownerMsTributario = ''Ms Tribut'' @ [CHR 0xE1] @ ''rio''"

definition mkId2 :: "int \<Rightarrow> string" where
  \<comment> \<open>\<open>`MST${String(newId).padStart(5, '0')}`\<close>\<close>
  "mkId2 newId = ''MST'' @ padStart 5 (CHR ''0'') (String newId)"

definition processCollides :: "caseData list \<Rightarrow> string \<Rightarrow> bool" where
  \<comment> \<open>\<open>cases.some(c => c.processoNumero.trim() === p.trim())\<close>\<close>
  "processCollides cs p = list_ex (\<lambda>c. trim (processoNumero c) = trim p) cs"

definition getNextCaseId :: "int \<Rightarrow> int" where
  \<comment> \<open>\<open>++lastCaseId.current\<close>, the new value of the counter and the id handed out.  The
      counter is a JavaScript number, a double that holds an integer: the sum is exact
      while it stays within 2^53 in magnitude; beyond, it is rounded to the nearest double,
      a tie to the one with the even significand (doubles are 2 apart up to 2^54 and at
      least 4 apart above)\<close>
  "getNextCaseId n =
     (if - (2 ^ 53) \<le> n \<and> n < 2 ^ 53 then n + 1
      else if \<bar>n\<bar> \<le> 2 ^ 54 \<and> odd (n div 2) then n + 2
      else n)"

definition handleAddCase :: "string \<Rightarrow> caseData \<Rightarrow> app_state \<Rightarrow> alert list \<times> app_state" where
  "handleAddCase now newCase st =
     (if processCollides (cases st) (processoNumero newCase)
      then ([DuplicateProcessOnAdd (processoNumero newCase)], st)
      else
        let newId = getNextCaseId (lastCaseId st);
            newId2 = mkId2 newId;
            log = [\<lparr>fromUser = name_user (currentUser st),
                    toUser = name newCase,
                    timestamp = now,
                    deadline = orStr (prazoDeterminado newCase) []\<rparr>];
            finalNewCase = newCase\<lparr>id_case := newId,
                                   id2 := newId2,
                                   ownerName := ownerMsTributario,
                                   coResponsibleName := Some (name newCase),
                                   tramitationLog := Some log\<rparr>
        in ([CaseCreated (processoNumero finalNewCase)],
            st\<lparr>cases := finalNewCase # cases st, lastCaseId := newId\<rparr>))"

definition orLog :: "tramitationEntry list option \<Rightarrow> tramitationEntry list" where
  \<comment> \<open>\<open>c.tramitationLog || []\<close>: an array, even an empty one, is truthy\<close>
  "orLog l = (case l of None \<Rightarrow> [] | Some es \<Rightarrow> es)"

definition orAttachments :: "attachment list option \<Rightarrow> attachment list" where
  \<comment> \<open>\<open>c.attachments || []\<close>\<close>
  "orAttachments l = (case l of None \<Rightarrow> [] | Some es \<Rightarrow> es)"

definition orCoResponsible :: "string option \<Rightarrow> string \<Rightarrow> string" where
  \<comment> \<open>\<open>c.coResponsibleName || n\<close>: undefined and the empty string are falsy\<close>
  "orCoResponsible co n = (case co of None \<Rightarrow> n | Some s \<Rightarrow> orStr s n)"

definition emailOf :: "user option \<Rightarrow> string" where
  \<comment> \<open>\<open>u?.email || ''\<close>\<close>
  "emailOf u = (case u of None \<Rightarrow> [] | Some v \<Rightarrow> orStr (email_user v) [])"

definition updateOne :: "string \<Rightarrow> app_state \<Rightarrow> caseData \<Rightarrow> caseData \<Rightarrow> caseData" where
  \<comment> \<open>the function mapped over \<open>prev\<close> by \<open>handleUpdateCase\<close>\<close>
  "updateOne now st updatedCase c =
     (if id_case c \<noteq> id_case updatedCase then c
      else if name c \<noteq> name updatedCase then
        let newUser = find (\<lambda>u. name_user u = name updatedCase) (users st);
            logEntry = \<lparr>fromUser = name_user (currentUser st),
                        toUser = name updatedCase,
                        timestamp = now,
                        deadline = prazoDeterminado updatedCase\<rparr>
        in updatedCase\<lparr>email := emailOf newUser,
                        tramitationLog := Some (orLog (tramitationLog c) @ [logEntry]),
                        coResponsibleName := Some (orCoResponsible (coResponsibleName c) (name updatedCase))\<rparr>
      else updatedCase)"

definition otherCollides :: "caseData list \<Rightarrow> caseData \<Rightarrow> bool" where
  \<comment> \<open>\<open>cases.some(c => c.id !== u.id && c.processoNumero.trim() === u.processoNumero.trim())\<close>\<close>
  "otherCollides cs u =
     list_ex (\<lambda>c. id_case c \<noteq> id_case u \<and> trim (processoNumero c) = trim (processoNumero u)) cs"

definition handleUpdateCase :: "string \<Rightarrow> caseData \<Rightarrow> app_state \<Rightarrow> alert list \<times> app_state" where
  "handleUpdateCase now updatedCase st =
     (if otherCollides (cases st) updatedCase
      then ([DuplicateProcessOnUpdate (processoNumero updatedCase)], st)
      else ([], st\<lparr>cases := map (updateOne now st updatedCase) (cases st)\<rparr>))"

definition updatedCaseMap :: "caseData list \<Rightarrow> (int \<rightharpoonup> caseData)" where
  \<comment> \<open>\<open>new Map(updatedCases.map(c => [c.id, c]))\<close>: a later entry replaces an earlier one\<close>
  "updatedCaseMap updatedCases = foldl (\<lambda>m c. m(id_case c \<mapsto> c)) Map.empty updatedCases"

definition handleUpdateMultipleCases :: "caseData list \<Rightarrow> app_state \<Rightarrow> alert list \<times> app_state" where
  "handleUpdateMultipleCases updatedCases st =
     ([], st\<lparr>cases := map (\<lambda>c. case updatedCaseMap updatedCases (id_case c) of
                                   Some u \<Rightarrow> u | None \<Rightarrow> c) (cases st)\<rparr>)"

definition handleDeleteCase :: "int \<Rightarrow> app_state \<Rightarrow> alert list \<times> app_state" where
  "handleDeleteCase caseId st = ([], st\<lparr>cases := filter (\<lambda>c. id_case c \<noteq> caseId) (cases st)\<rparr>)"

definition handleDeleteMultipleCases :: "int list \<Rightarrow> app_state \<Rightarrow> alert list \<times> app_state" where
  "handleDeleteMultipleCases caseIds st =
     ([], st\<lparr>cases := filter (\<lambda>c. id_case c \<notin> set caseIds) (cases st)\<rparr>)"

subsection \<open>Tramitation with an optional attachment\<close>

text \<open>
  A \<open>File\<close> carries a name, a media type and a size.  \<open>FileReader.readAsDataURL\<close> ends in
  \<open>onerror\<close> or in \<open>onload\<close> with the encoded content; an absent result is the empty
  content, which \<open>!content\<close> treats alike.  The outcome of the read is an argument of the
  handler, and the read finishes within the event.  \<open>nowMs\<close> is \<open>Date.now()\<close>.
\<close>

record file_t =
  name_file :: string
  type_file :: string
  size_file :: int

datatype readResult = ReadFailed | ReadLoaded string

definition MAX_FILE_SIZE_MB :: int where
  "MAX_FILE_SIZE_MB = 2"

definition MAX_FILE_SIZE_BYTES :: int where
  "MAX_FILE_SIZE_BYTES = MAX_FILE_SIZE_MB * 1024 * 1024"

definition tramitateOne ::
  "string \<Rightarrow> int \<Rightarrow> app_state \<Rightarrow> int \<Rightarrow> string \<Rightarrow> string \<Rightarrow> file_t option \<Rightarrow> string option
     \<Rightarrow> caseData \<Rightarrow> caseData" where
  \<comment> \<open>the function mapped over \<open>prev\<close> by \<open>processTramitation\<close>\<close>
  "tramitateOne now nowMs st caseId toUserName dl attachmentFile attachmentContent c =
     (if id_case c = caseId then
        (case find (\<lambda>u. name_user u = toUserName) (users st) of
           None \<Rightarrow> c
         | Some toUser' \<Rightarrow>
             let logEntry = \<lparr>fromUser = name_user (currentUser st),
                             toUser = toUserName,
                             timestamp = now,
                             deadline = dl\<rparr>;
                 updatedCase = c\<lparr>name := name_user toUser',
                                 email := email_user toUser',
                                 tramitationLog := Some (orLog (tramitationLog c) @ [logEntry]),
                                 coResponsibleName :=
                                   Some (orCoResponsible (coResponsibleName c) (name_user toUser'))\<rparr>
             in (case (attachmentFile, attachmentContent) of
                   (Some f, Some ct) \<Rightarrow>
                     if ct \<noteq> [] then
                       updatedCase\<lparr>attachments :=
                         Some (orAttachments (attachments c) @
                               [\<lparr>id_att = String nowMs @ ''-'' @ name_file f,
                                 fileName = name_file f,
                                 fileType = type_file f,
                                 fileSize = size_file f,
                                 content = ct,
                                 uploadedBy = name_user (currentUser st),
                                 timestamp_att = now\<rparr>])\<rparr>
                     else updatedCase
                 | _ \<Rightarrow> updatedCase))
      else c)"

definition processTramitation ::
  "string \<Rightarrow> int \<Rightarrow> app_state \<Rightarrow> int \<Rightarrow> string \<Rightarrow> string \<Rightarrow> file_t option \<Rightarrow> string option
     \<Rightarrow> alert list \<times> app_state" where
  "processTramitation now nowMs st caseId toUserName dl attachmentFile attachmentContent =
     (concat (map (\<lambda>c. if id_case c = caseId
                            \<and> find (\<lambda>u. name_user u = toUserName) (users st) = None
                         then [UserNotFound toUserName] else []) (cases st)),
      st\<lparr>cases := map (tramitateOne now nowMs st caseId toUserName dl attachmentFile attachmentContent)
                       (cases st)\<rparr>)"

definition handleTramitateCase ::
  "string \<Rightarrow> int \<Rightarrow> readResult \<Rightarrow> int \<Rightarrow> string \<Rightarrow> string \<Rightarrow> file_t option \<Rightarrow> app_state
     \<Rightarrow> alert list \<times> app_state" where
  "handleTramitateCase now nowMs rd caseId toUserName dl attachmentFile st =
     (case attachmentFile of
        Some f \<Rightarrow>
          if size_file f > MAX_FILE_SIZE_BYTES then ([FileTooLarge], st)
          else (case rd of
                  ReadFailed \<Rightarrow> ([AttachmentReadError], st)
                | ReadLoaded ct \<Rightarrow>
                    if ct = [] then ([AttachmentReadEmpty], st)
                    else processTramitation now nowMs st caseId toUserName dl attachmentFile (Some ct))
      | None \<Rightarrow> processTramitation now nowMs st caseId toUserName dl attachmentFile None)"

subsection \<open>Import of a batch of rows\<close>

record importAcc =
  importedProcessNumbersInFile :: "string set"
  successfulImports :: "caseData list"
  duplicatesInFile :: "string list"
  duplicatesInSystem :: "string list"
  lastId :: int

definition importSystemUser :: string where
  \<comment> \<open>the sender name of the source for an import: U+00E7 and U+00E3 are its
      c with cedilla and a with tilde\<close>
  "importSystemUser = ''Sistema (Importa'' @ [CHR 0xE7, CHR 0xE3] @ ''o)''"

definition importStep :: "string \<Rightarrow> user list \<Rightarrow> string set \<Rightarrow> importAcc \<Rightarrow> caseData \<Rightarrow> importAcc" where
  \<comment> \<open>one round of the \<open>for ... of\<close> loop of \<open>handleImportCases\<close>\<close>
  "importStep now us existingProcessNumbers acc importedCase =
     (let trimmedProcessoNumero = trim (processoNumero importedCase)
      in if trimmedProcessoNumero = [] then acc
         else if trimmedProcessoNumero \<in> existingProcessNumbers
           then acc\<lparr>duplicatesInSystem := duplicatesInSystem acc @ [trimmedProcessoNumero]\<rparr>
         else if trimmedProcessoNumero \<in> importedProcessNumbersInFile acc
           then acc\<lparr>duplicatesInFile := duplicatesInFile acc @ [trimmedProcessoNumero]\<rparr>
         else
           let newId = getNextCaseId (lastId acc);
               newId2 = mkId2 newId;
               assigneeName = name importedCase;
               assigneeUser = find (\<lambda>u. toLowerCase (trim (name_user u))
                                           = toLowerCase (trim assigneeName)) us;
               assignee = (case assigneeUser of None \<Rightarrow> assigneeName
                                              | Some u \<Rightarrow> orStr (name_user u) assigneeName);
               log = [\<lparr>fromUser = importSystemUser,
                       toUser = assigneeName,
                       timestamp = now,
                       deadline = orStr (prazoDeterminado importedCase) []\<rparr>];
               finalCase = importedCase\<lparr>id_case := newId,
                                        id2 := newId2,
                                        ownerName := ownerMsTributario,
                                        name := assignee,
                                        email := emailOf assigneeUser,
                                        coResponsibleName := Some assignee,
                                        tramitationLog := Some log\<rparr>
           in acc\<lparr>importedProcessNumbersInFile :=
                      insert trimmedProcessoNumero (importedProcessNumbersInFile acc),
                    successfulImports := successfulImports acc @ [finalCase],
                    lastId := newId\<rparr>)"

definition reconcile :: "string \<Rightarrow> caseData list \<Rightarrow> app_state \<Rightarrow> importAcc" where
  \<comment> \<open>the loop of \<open>handleImportCases\<close> with its five accumulators\<close>
  "reconcile now newCases st =
     foldl (importStep now (users st) (set (map (\<lambda>c. trim (processoNumero c)) (cases st))))
           \<lparr>importedProcessNumbersInFile = {},
            successfulImports = [],
            duplicatesInFile = [],
            duplicatesInSystem = [],
            lastId = lastCaseId st\<rparr>
           newCases"

definition handleImportCases :: "string \<Rightarrow> caseData list \<Rightarrow> app_state \<Rightarrow> alert list \<times> app_state" where
  "handleImportCases now newCases st =
     (let r = reconcile now newCases st
      in ([ImportReport (length (successfulImports r)) (duplicatesInSystem r) (duplicatesInFile r)],
          st\<lparr>cases := cases st @ successfulImports r, lastCaseId := lastId r\<rparr>))"

section \<open>Store invariant and sample data\<close>

definition storeInv :: "app_state \<Rightarrow> bool" where
  \<comment> \<open>process numbers (trimmed) and ids are unique, and the id counter is not behind\<close>
  "storeInv st \<longleftrightarrow>
     distinct (map (\<lambda>c. trim (processoNumero c)) (cases st))
   \<and> distinct (map id_case (cases st))
   \<and> list_all (\<lambda>c. id_case c \<le> lastCaseId st) (cases st)"

definition importInv :: "app_state \<Rightarrow> importAcc \<Rightarrow> bool" where
  \<comment> \<open>the invariant of the import loop: the store with the rows accepted so far\<close>
  "importInv st acc \<longleftrightarrow>
     distinct (map (\<lambda>c. trim (processoNumero c)) (cases st @ successfulImports acc))
   \<and> importedProcessNumbersInFile acc = (\<lambda>c. trim (processoNumero c)) ` set (successfulImports acc)
   \<and> distinct (map id_case (cases st @ successfulImports acc))
   \<and> list_all (\<lambda>c. id_case c \<le> lastId acc) (cases st @ successfulImports acc)"

definition blankCase :: caseData where
  "blankCase =
     \<lparr>id_case = 0, id2 = [], tribunal = [], processoNumero = [], autor = [], reu = [],
      trib = [], varaComarca = [], materia = [], ownerName = [], name = [], email = [],
      coResponsibleName = None, tramitationLog = None, attachments = None,
      dataNomeacao = [], dataInicial = [], prazoDeterminado = [], dataDesignada = [],
      dataFinal = [], startHour = [], finishHour = [], dataFinalCorridos = [], diasUteis = 0,
      prioridade = Media, dataAtribuida = [], fases = [], status = [],
      segredoDeJustica = Nao, naturezaAcao = [], valorDaAcao = []\<rparr>"

definition sampleCase :: "int \<Rightarrow> string \<Rightarrow> string \<Rightarrow> caseData" where
  "sampleCase i p n = blankCase\<lparr>id_case := i, processoNumero := p, name := n\<rparr>"

definition alice :: user where
  "alice = \<lparr>id_user = 1, name_user = ''Alice'', email_user = ''alice@example.org'',
            password_user = None, permission_user = Adm\<rparr>"

definition bob :: user where
  "bob = \<lparr>id_user = 2, name_user = ''Bob'', email_user = ''bob@example.org'',
          password_user = None, permission_user = Usr\<rparr>"

definition sampleState :: app_state where
  "sampleState =
     \<lparr>currentUser = alice, users = [alice, bob],
      cases = [sampleCase 2 ''P2'' ''Alice'', sampleCase 1 ''P1'' ''Alice''],
      lastCaseId = 2\<rparr>"



definition bigFile :: file_t where
  "bigFile = \<lparr>name_file = ''big.pdf'', type_file = ''application/pdf'', size_file = 2097153\<rparr>"

definition limitFile :: file_t where
  \<comment> \<open>exactly 2 MB: within the limit\<close>
  "limitFile = \<lparr>name_file = ''ok.pdf'', type_file = ''application/pdf'', size_file = 2097152\<rparr>"

section \<open>Case store: helper lemmas\<close>

lemma processCollides_iff:
  "processCollides cs p \<longleftrightarrow> (\<exists>c\<in>set cs. trim (processoNumero c) = trim p)"
  by (simp add: processCollides_def list_ex_iff)

lemma otherCollides_iff:
  "otherCollides cs u \<longleftrightarrow>
     (\<exists>c\<in>set cs. id_case c \<noteq> id_case u \<and> trim (processoNumero c) = trim (processoNumero u))"
  by (simp add: otherCollides_def list_ex_iff)

lemma orStr_empty [simp]: "orStr s [] = s"
  by (simp add: orStr_def)

lemma emailOf_find:
  "emailOf u = (case u of None \<Rightarrow> [] | Some v \<Rightarrow> email_user v)"
  by (simp add: emailOf_def split: option.splits)

lemma orCoResponsible_unset:
  "orCoResponsible co n = (if co = None \<or> co = Some [] then n else the co)"
  by (auto simp: orCoResponsible_def orStr_def split: option.splits)

lemma trim_P1: "trim ''P1'' = ''P1''"
  by (simp add: trim_def isWhiteSpace_def)

lemma trim_P2: "trim ''P2'' = ''P2''"
  by (simp add: trim_def isWhiteSpace_def)

lemma trim_P3: "trim ''P3'' = ''P3''"
  by (simp add: trim_def isWhiteSpace_def)

lemma trim_P1_spaces: "trim '' P1 '' = ''P1''"
  by (simp add: trim_def isWhiteSpace_def)

lemma String_3: "String 3 = ''3''"
  by code_simp

lemma sampleState_cases:
  "cases sampleState = [sampleCase 2 ''P2'' ''Alice'', sampleCase 1 ''P1'' ''Alice'']"
  by (simp add: sampleState_def)

lemma sampleCase_sel [simp]:
  "id_case (sampleCase i p n) = i"
  "processoNumero (sampleCase i p n) = p"
  "name (sampleCase i p n) = n"
  "tramitationLog (sampleCase i p n) = None"
  "coResponsibleName (sampleCase i p n) = None"
  "prazoDeterminado (sampleCase i p n) = []"
  by (simp_all add: sampleCase_def blankCase_def)

lemma storeInv_sampleState: "storeInv sampleState"
  by (simp add: storeInv_def sampleState_def trim_P1 trim_P2)

subsection \<open>The id map of the bulk update\<close>

lemma updatedCaseMap_foldl:
  "foldl (\<lambda>m c. m(id_case c \<mapsto> c)) m0 us k =
     (if filter (\<lambda>u. id_case u = k) us = [] then m0 k
      else Some (last (filter (\<lambda>u. id_case u = k) us)))"
  by (induction us rule: rev_induct) simp_all

lemma updatedCaseMap_None:
  "k \<notin> id_case ` set us \<Longrightarrow> updatedCaseMap us k = None"
  unfolding updatedCaseMap_def updatedCaseMap_foldl
  by (auto simp: filter_empty_conv)

lemma updatedCaseMap_Some:
  "k \<in> id_case ` set us \<Longrightarrow>
     updatedCaseMap us k = Some (last (filter (\<lambda>u. id_case u = k) us))"
  unfolding updatedCaseMap_def updatedCaseMap_foldl
  by (auto simp: filter_empty_conv)

lemma last_filter_id:
  assumes "k \<in> id_case ` set us"
  shows "last (filter (\<lambda>u. id_case u = k) us) \<in> set us
       \<and> id_case (last (filter (\<lambda>u. id_case u = k) us)) = k"
proof -
  from assms have ne: "filter (\<lambda>u. id_case u = k) us \<noteq> []"
    by (auto simp: filter_empty_conv)
  from last_in_set [OF ne] show ?thesis by simp
qed

subsection \<open>The single update keeps ids and touches one process number\<close>

lemma updateOne_id [simp]: "id_case (updateOne now st u c) = id_case c"
  by (simp add: updateOne_def Let_def)

lemma updateOne_other [simp]: "id_case c \<noteq> id_case u \<Longrightarrow> updateOne now st u c = c"
  by (simp add: updateOne_def)

lemma updateOne_processo [simp]:
  "id_case c = id_case u \<Longrightarrow> processoNumero (updateOne now st u c) = processoNumero u"
  by (simp add: updateOne_def Let_def)

lemma update_keeps_distinct:
  assumes "distinct (map id_case cs)"
    and "distinct (map (\<lambda>c. trim (processoNumero c)) cs)"
    and "\<forall>c\<in>set cs. id_case c \<noteq> id_case u \<longrightarrow> trim (processoNumero c) \<noteq> trim (processoNumero u)"
  shows "distinct (map (\<lambda>c. trim (processoNumero c)) (map (updateOne now st u) cs))"
  using assms
proof (induction cs)
  case Nil
  show ?case by simp
next
  case (Cons c cs)
  have rest: "distinct (map (\<lambda>c. trim (processoNumero c)) (map (updateOne now st u) cs))"
    using Cons by simp
  show ?case
  proof (cases "id_case c = id_case u")
    case True
    then have others: "\<forall>d\<in>set cs. id_case d \<noteq> id_case u"
      using Cons.prems(1) by (auto simp: image_iff)
    then have same: "map (updateOne now st u) cs = cs"
      by (simp add: map_idI)
    have "trim (processoNumero u) \<notin> (\<lambda>c. trim (processoNumero c)) ` set cs"
      using others Cons.prems(3) by auto
    then show ?thesis using True same Cons.prems(2) by simp
  next
    case False
    have "trim (processoNumero c) \<noteq> trim (processoNumero (updateOne now st u d))"
      if "d \<in> set cs" for d
    proof (cases "id_case d = id_case u")
      case True
      then show ?thesis using False Cons.prems(3) by simp
    next
      case False
      then show ?thesis using that Cons.prems(2) by auto
    qed
    then show ?thesis using False rest by auto
  qed
qed

lemma storeInv_update:
  assumes "storeInv st"
  shows "storeInv (snd (handleUpdateCase now u st))"
proof (cases "otherCollides (cases st) u")
  case True
  then show ?thesis using assms by (simp add: handleUpdateCase_def)
next
  case False
  then have free: "\<forall>c\<in>set (cases st). id_case c \<noteq> id_case u
                     \<longrightarrow> trim (processoNumero c) \<noteq> trim (processoNumero u)"
    by (auto simp: otherCollides_iff)
  have d: "distinct (map (\<lambda>c. trim (processoNumero c)) (map (updateOne now st u) (cases st)))"
    using assms free by (intro update_keeps_distinct) (simp_all add: storeInv_def)
  show ?thesis
    using False assms d
    by (simp add: handleUpdateCase_def storeInv_def list_all_iff o_def)
qed

lemma getNextCaseId_exact:
  "- (2 ^ 53) \<le> n \<Longrightarrow> n < 2 ^ 53 \<Longrightarrow> getNextCaseId n = n + 1"
  by (simp add: getNextCaseId_def)

lemma getNextCaseId_stuck: "getNextCaseId (2 ^ 53) = 2 ^ 53"
  by (simp add: getNextCaseId_def)

lemma storeInv_add:
  assumes "storeInv st" and "- (2 ^ 53) \<le> lastCaseId st" and "lastCaseId st < 2 ^ 53"
  shows "storeInv (snd (handleAddCase now d st))"
proof (cases "processCollides (cases st) (processoNumero d)")
  case True
  then show ?thesis using assms by (simp add: handleAddCase_def)
next
  case False
  note nx = getNextCaseId_exact [OF assms(2,3)]
  from False have "trim (processoNumero d) \<notin> (\<lambda>c. trim (processoNumero c)) ` set (cases st)"
    by (auto simp: processCollides_iff)
  moreover have "lastCaseId st + 1 \<notin> id_case ` set (cases st)"
    using assms(1) by (auto simp: storeInv_def list_all_iff)
  ultimately show ?thesis
    using False assms(1)
    by (auto simp: handleAddCase_def storeInv_def list_all_iff Let_def nx)
qed

subsection \<open>Import, deletion and tramitation keep the store invariant\<close>

lemma importStep_inv:
  assumes "importInv st acc" and "- (2 ^ 53) \<le> lastId acc" and "lastId acc < 2 ^ 53"
  shows "importInv st (importStep now us ((\<lambda>c. trim (processoNumero c)) ` set (cases st)) acc r)"
proof -
  let ?tp = "\<lambda>c. trim (processoNumero c)"
  note nx = getNextCaseId_exact [OF assms(2,3)]
  consider (a) "trim (processoNumero r) = []"
    | (b) "trim (processoNumero r) \<noteq> []" "trim (processoNumero r) \<in> ?tp ` set (cases st)"
    | (c) "trim (processoNumero r) \<noteq> []" "trim (processoNumero r) \<notin> ?tp ` set (cases st)"
             "trim (processoNumero r) \<in> importedProcessNumbersInFile acc"
    | (d) "trim (processoNumero r) \<noteq> []" "trim (processoNumero r) \<notin> ?tp ` set (cases st)"
            "trim (processoNumero r) \<notin> importedProcessNumbersInFile acc"
    by blast
  then show ?thesis
  proof cases
    case a
    then show ?thesis using assms(1) by (simp add: importStep_def)
  next
    case b
    then show ?thesis using assms(1) by (simp add: importStep_def importInv_def)
  next
    case c
    then show ?thesis using assms(1) by (simp add: importStep_def importInv_def)
  next
    case d
    have "\<forall>c\<in>set (cases st @ successfulImports acc). id_case c \<le> lastId acc"
      using assms(1) by (simp add: importInv_def list_all_iff)
    then have fresh: "lastId acc + 1 \<notin> id_case ` set (cases st @ successfulImports acc)"
      by force
    show ?thesis
      using d assms(1) fresh
      by (auto simp: importStep_def importInv_def Let_def list_all_iff ball_Un nx)
  qed
qed

lemma importStep_lastId:
  assumes "- (2 ^ 53) \<le> lastId acc" and "lastId acc < 2 ^ 53"
  shows "lastId acc \<le> lastId (importStep now us E acc r)
       \<and> lastId (importStep now us E acc r) \<le> lastId acc + 1"
  using getNextCaseId_exact [OF assms]
  by (simp add: importStep_def Let_def)

lemma foldl_importStep_inv:
  "importInv st acc \<Longrightarrow> - (2 ^ 53) \<le> lastId acc \<Longrightarrow> lastId acc + int (length rs) \<le> 2 ^ 53 \<Longrightarrow>
     importInv st (foldl (importStep now us ((\<lambda>c. trim (processoNumero c)) ` set (cases st))) acc rs)"
proof (induction rs arbitrary: acc)
  case Nil
  then show ?case by simp
next
  case (Cons r rs)
  let ?E = "(\<lambda>c. trim (processoNumero c)) ` set (cases st)"
  from Cons.prems have lt: "lastId acc < 2 ^ 53" by simp
  note l = importStep_lastId [OF Cons.prems(2) lt, of now us ?E r]
  have "importInv st (importStep now us ?E acc r)"
    by (rule importStep_inv [OF Cons.prems(1,2) lt])
  moreover have "- (2 ^ 53) \<le> lastId (importStep now us ?E acc r)"
    using l Cons.prems(2) by linarith
  moreover have "lastId (importStep now us ?E acc r) + int (length rs) \<le> 2 ^ 53"
    using l Cons.prems(3) by simp
  ultimately show ?case
    using Cons.IH by simp
qed

lemma storeInv_import:
  assumes "storeInv st" and "- (2 ^ 53) \<le> lastCaseId st"
    and "lastCaseId st + int (length rs) \<le> 2 ^ 53"
  shows "storeInv (snd (handleImportCases now rs st))"
proof -
  have "importInv st \<lparr>importedProcessNumbersInFile = {}, successfulImports = [],
                      duplicatesInFile = [], duplicatesInSystem = [], lastId = lastCaseId st\<rparr>"
    using assms(1) by (simp add: importInv_def storeInv_def)
  then have "importInv st (reconcile now rs st)"
    unfolding reconcile_def using foldl_importStep_inv [of st _ rs now "users st"] assms(2,3)
    by simp
  then show ?thesis
    by (simp add: handleImportCases_def Let_def storeInv_def importInv_def)
qed

lemma storeInv_delete:
  "storeInv st \<Longrightarrow> storeInv (snd (handleDeleteCase caseId st))"
  "storeInv st \<Longrightarrow> storeInv (snd (handleDeleteMultipleCases caseIds st))"
  by (simp_all add: storeInv_def handleDeleteCase_def handleDeleteMultipleCases_def
      distinct_map_filter list_all_iff)

lemma tramitateOne_keeps:
  "processoNumero (tramitateOne now nowMs st caseId toUserName dl att ct c) = processoNumero c"
  "id_case (tramitateOne now nowMs st caseId toUserName dl att ct c) = id_case c"
  by (simp_all add: tramitateOne_def Let_def split: option.splits)

lemma storeInv_tramitate:
  assumes "storeInv st"
  shows "storeInv (snd (handleTramitateCase now nowMs rd caseId toUserName dl att st))"
proof -
  have "storeInv (snd (processTramitation now nowMs st caseId toUserName dl att' ct))" for ct att'
    using assms
    by (simp add: processTramitation_def storeInv_def o_def tramitateOne_keeps list_all_iff)
  note pt = this
  show ?thesis
    using assms
    by (simp add: pt handleTramitateCase_def split: option.splits readResult.splits)
qed

subsection \<open>Tramitation towards a user that does not exist\<close>

lemma concat_singletons:
  "concat (map (\<lambda>c. if P c then [a] else []) xs) = map (\<lambda>c. a) (filter P xs)"
  by (induction xs) simp_all

lemma tramitateOne_no_user:
  "find (\<lambda>u. name_user u = toUserName) (users st) = None \<Longrightarrow>
     tramitateOne now nowMs st caseId toUserName dl att ct = (\<lambda>c. c)"
  by (rule ext) (simp add: tramitateOne_def)

lemma processTramitation_no_user:
  "find (\<lambda>u. name_user u = toUserName) (users st) = None \<Longrightarrow>
     snd (processTramitation now nowMs st caseId toUserName dl att ct) = st"
  by (simp add: processTramitation_def tramitateOne_no_user)

lemma filter_id_none:
  "caseId \<notin> id_case ` set cs \<Longrightarrow> filter (\<lambda>c. id_case c = caseId) cs = []"
  by (induction cs) auto

lemma filter_id_single:
  "distinct (map id_case cs) \<Longrightarrow> caseId \<in> id_case ` set cs \<Longrightarrow>
     length (filter (\<lambda>c. id_case c = caseId) cs) = 1"
proof (induction cs)
  case Nil
  then show ?case by simp
next
  case (Cons c cs)
  show ?case
  proof (cases "id_case c = caseId")
    case True
    with Cons.prems have "caseId \<notin> id_case ` set cs" by auto
    then show ?thesis using True by (simp add: filter_id_none)
  next
    case False
    with Cons show ?thesis by auto
  qed
qed

lemma processTramitation_no_user_alerts:
  assumes "find (\<lambda>u. name_user u = toUserName) (users st) = None"
  shows "processTramitation now nowMs st caseId toUserName dl att ct
           = (map (\<lambda>c. UserNotFound toUserName) (filter (\<lambda>c. id_case c = caseId) (cases st)), st)"
proof -
  have "fst (processTramitation now nowMs st caseId toUserName dl att ct)
          = concat (map (\<lambda>c. if id_case c = caseId then [UserNotFound toUserName] else [])
                        (cases st))"
    using assms by (simp add: processTramitation_def)
  also have "\<dots> = map (\<lambda>c. UserNotFound toUserName) (filter (\<lambda>c. id_case c = caseId) (cases st))"
    by (rule concat_singletons)
  finally show ?thesis
    using processTramitation_no_user [OF assms, of now nowMs caseId dl att ct]
    by (simp add: prod_eq_iff)
qed

lemma processTramitation_no_user_alert:
  assumes "find (\<lambda>u. name_user u = toUserName) (users st) = None"
    and "caseId \<in> id_case ` set (cases st)"
  shows "fst (processTramitation now nowMs st caseId toUserName dl att ct) \<noteq> []"
  using assms by (auto simp: processTramitation_def)

subsection \<open>Decimal digits and the display id\<close>

lemma numberOf_snoc: "numberOf (s @ [c]) = 10 * numberOf s + (of_char c - 48)"
  by (simp add: numberOf_def)

lemma numberOf_digitsOf: "numberOf (digitsOf n) = n"
proof (induction n rule: digitsOf.induct)
  case (1 n)
  show ?case
  proof (cases "n < 10")
    case True
    then show ?thesis
      by (subst digitsOf.simps) (simp add: numberOf_def)
  next
    case False
    then have "numberOf (digitsOf (n div 10)) = n div 10" using 1 by simp
    with False show ?thesis
      by (subst digitsOf.simps) (simp add: numberOf_snoc)
  qed
qed

lemma numberOf_zeros: "numberOf (replicate k (CHR ''0'') @ s) = numberOf s"
proof -
  have "foldl (\<lambda>a c. 10 * a + (of_char c - 48)) 0 (replicate k (CHR ''0'')) = (0::nat)"
    by (induction k) simp_all
  then show ?thesis by (simp add: numberOf_def)
qed

lemma length_digitsOf: "0 < k \<Longrightarrow> n < 10 ^ k \<Longrightarrow> length (digitsOf n) \<le> k"
proof (induction n arbitrary: k rule: digitsOf.induct)
  case (1 n)
  show ?case
  proof (cases "n < 10")
    case True
    then show ?thesis using 1 by (subst digitsOf.simps) simp
  next
    case False
    then obtain j where k: "k = Suc j" "0 < j"
      using 1(2,3) by (cases k; cases "k - 1") auto
    have "n div 10 < 10 ^ j" using 1(3) k
      by (simp add: less_mult_imp_div_less mult.commute)
    then have "length (digitsOf (n div 10)) \<le> j" using 1(1) False k by simp
    then show ?thesis using False k by (subst digitsOf.simps) simp
  qed
qed

lemma mkId2_decode: "0 \<le> n \<Longrightarrow> int (numberOf (drop 3 (mkId2 n))) = n"
  by (simp add: mkId2_def padStart_def String_def numberOf_zeros numberOf_digitsOf)

lemma mkId2_length: "0 \<le> n \<Longrightarrow> n < 100000 \<Longrightarrow> length (mkId2 n) = 8"
proof -
  assume a: "0 \<le> n" "n < 100000"
  then have "nat n < 10 ^ 5" by simp
  then have "length (digitsOf (nat n)) \<le> 5"
    by (intro length_digitsOf) simp_all
  then show ?thesis using a by (simp add: mkId2_def padStart_def String_def)
qed

lemma mkId2_3: "mkId2 3 = ''MST00003''"
  by code_simp

lemma replicate_4: "replicate 4 c = [c, c, c, c]"
  by (simp add: numeral_eq_Suc)


section \<open>Case store: the claims\<close>

text \<open>
  Claim C1, as amended.  An update that passes the collision check of \<open>handleUpdateCase\<close>
  (no case with another id has the same trimmed process number) leaves every case with
  another id as it is.  On the case with the update's id: when the assignee \<open>name\<close>
  differs, the stored log gets exactly one entry at its end, from the acting user to the
  new assignee, the e-mail is the one of the user of that name (empty when there is none),
  and the co-responsible is the new assignee only if the stored one was unset or empty;
  when the assignee is the same, the update is stored as it is.
\<close>

theorem updateCase_accepted:
  assumes "\<forall>c\<in>set (cases st). id_case c \<noteq> id_case u
             \<longrightarrow> trim (processoNumero c) \<noteq> trim (processoNumero u)"
  shows "(let st' = snd (handleUpdateCase now u st) in
            fst (handleUpdateCase now u st) = []
          \<and> length (cases st') = length (cases st)
          \<and> users st' = users st \<and> currentUser st' = currentUser st
          \<and> lastCaseId st' = lastCaseId st
          \<and> (\<forall>i < length (cases st).
               (id_case (cases st ! i) \<noteq> id_case u \<longrightarrow> cases st' ! i = cases st ! i)
             \<and> (id_case (cases st ! i) = id_case u \<and> name (cases st ! i) = name u
                   \<longrightarrow> cases st' ! i = u)
             \<and> (id_case (cases st ! i) = id_case u \<and> name (cases st ! i) \<noteq> name u
                   \<longrightarrow> cases st' ! i =
                        u\<lparr>email := (case find (\<lambda>x. name_user x = name u) (users st) of
                                      None \<Rightarrow> [] | Some x \<Rightarrow> email_user x),
                          tramitationLog :=
                            Some ((case tramitationLog (cases st ! i) of None \<Rightarrow> [] | Some l \<Rightarrow> l)
                                  @ [\<lparr>fromUser = name_user (currentUser st), toUser = name u,
                                       timestamp = now, deadline = prazoDeterminado u\<rparr>]),
                          coResponsibleName :=
                            Some (if coResponsibleName (cases st ! i) = None
                                     \<or> coResponsibleName (cases st ! i) = Some []
                                  then name u
                                  else the (coResponsibleName (cases st ! i)))\<rparr>)))"
proof -
  from assms have "\<not> otherCollides (cases st) u"
    by (auto simp: otherCollides_iff)
  then show ?thesis
    by (simp add: handleUpdateCase_def Let_def updateOne_def emailOf_find
        orCoResponsible_unset orLog_def)
qed

text \<open>
  At the sample store, moving case 1 from Alice to Bob: the other case stays, and case 1
  gets Bob's e-mail, one log entry and Bob as co-responsible.
\<close>

theorem updateCase_accepted_witness:
  "cases (snd (handleUpdateCase ''t'' (sampleCase 1 ''P1'' ''Bob'') sampleState)) ! 0
     = sampleCase 2 ''P2'' ''Alice''
 \<and> cases (snd (handleUpdateCase ''t'' (sampleCase 1 ''P1'' ''Bob'') sampleState)) ! 1
     = (sampleCase 1 ''P1'' ''Bob'')
         \<lparr>email := ''bob@example.org'',
          tramitationLog := Some [\<lparr>fromUser = ''Alice'', toUser = ''Bob'',
                                   timestamp = ''t'', deadline = []\<rparr>],
          coResponsibleName := Some ''Bob''\<rparr>"
proof -
  have h: "\<forall>c\<in>set (cases sampleState). id_case c \<noteq> id_case (sampleCase 1 ''P1'' ''Bob'')
             \<longrightarrow> trim (processoNumero c) \<noteq> trim (processoNumero (sampleCase 1 ''P1'' ''Bob''))"
    by (simp add: sampleState_cases trim_P1 trim_P2)
  let ?st' = "snd (handleUpdateCase ''t'' (sampleCase 1 ''P1'' ''Bob'') sampleState)"
  from updateCase_accepted [OF h, of "''t''"]
  have all: "\<forall>i < length (cases sampleState).
               (id_case (cases sampleState ! i) \<noteq> 1 \<longrightarrow> cases ?st' ! i = cases sampleState ! i)
             \<and> (id_case (cases sampleState ! i) = 1 \<and> name (cases sampleState ! i) \<noteq> ''Bob''
                   \<longrightarrow> cases ?st' ! i =
                        (sampleCase 1 ''P1'' ''Bob'')
                         \<lparr>email := (case find (\<lambda>x. name_user x = ''Bob'') (users sampleState) of
                                      None \<Rightarrow> [] | Some x \<Rightarrow> email_user x),
                          tramitationLog :=
                            Some ((case tramitationLog (cases sampleState ! i) of None \<Rightarrow> [] | Some l \<Rightarrow> l)
                                  @ [\<lparr>fromUser = name_user (currentUser sampleState), toUser = ''Bob'',
                                       timestamp = ''t'', deadline = []\<rparr>]),
                          coResponsibleName :=
                            Some (if coResponsibleName (cases sampleState ! i) = None
                                     \<or> coResponsibleName (cases sampleState ! i) = Some []
                                  then ''Bob''
                                  else the (coResponsibleName (cases sampleState ! i)))\<rparr>)"
    by (simp add: Let_def)
  from all [rule_format, of 0] all [rule_format, of 1]
  show ?thesis
    by (simp add: sampleState_def alice_def bob_def)
qed

text \<open>
  Claim C1 as stated fails on an update that the collision check rejects: the update
  below changes the assignee of case 1 from Alice to Bob, but carries the process number
  of case 2.  Nothing is appended to the log of case 1.
\<close>

theorem updateCase_rejected_counterexample:
  "id_case (cases sampleState ! 1) = id_case (sampleCase 1 ''P2'' ''Bob'')
 \<and> name (cases sampleState ! 1) \<noteq> name (sampleCase 1 ''P2'' ''Bob'')
 \<and> orLog (tramitationLog (cases (snd (handleUpdateCase ''t'' (sampleCase 1 ''P2'' ''Bob'') sampleState)) ! 1))
     = orLog (tramitationLog (cases sampleState ! 1))
 \<and> orLog (tramitationLog (cases (snd (handleUpdateCase ''t'' (sampleCase 1 ''P2'' ''Bob'') sampleState)) ! 1))
     \<noteq> orLog (tramitationLog (cases sampleState ! 1))
         @ [\<lparr>fromUser = ''Alice'', toUser = ''Bob'', timestamp = ''t'', deadline = []\<rparr>]"
proof -
  have "otherCollides (cases sampleState) (sampleCase 1 ''P2'' ''Bob'')"
    by (simp add: otherCollides_iff sampleState_cases trim_P2)
  then have "snd (handleUpdateCase ''t'' (sampleCase 1 ''P2'' ''Bob'') sampleState) = sampleState"
    by (simp add: handleUpdateCase_def)
  then show ?thesis
    by (simp add: sampleState_cases)
qed




text \<open>
  The guarded operations.  \<open>handleAddCase\<close> rejects a draft whose trimmed process number equals the
  trimmed process number of a stored case, and \<open>handleUpdateCase\<close> rejects an update whose
  trimmed process number equals that of a stored case with another id; a rejection shows
  its message and returns the state as it was.  Both operations keep the store invariant:
  trimmed process numbers stay pairwise different (with unique ids and the id counter not
  behind them; for \<open>handleAddCase\<close> as long as the counter counts exactly).
\<close>

lemma process_number_uniqueness:
  "((\<exists>c\<in>set (cases st). trim (processoNumero c) = trim (processoNumero d))
      \<longrightarrow> handleAddCase now d st = ([DuplicateProcessOnAdd (processoNumero d)], st))
 \<and> ((\<exists>c\<in>set (cases st). id_case c \<noteq> id_case u
                          \<and> trim (processoNumero c) = trim (processoNumero u))
      \<longrightarrow> handleUpdateCase now u st = ([DuplicateProcessOnUpdate (processoNumero u)], st))
 \<and> (storeInv st \<longrightarrow>
       (- (2 ^ 53) \<le> lastCaseId st \<and> lastCaseId st < 2 ^ 53
          \<longrightarrow> storeInv (snd (handleAddCase now d st)))
     \<and> storeInv (snd (handleUpdateCase now u st)))"
  using storeInv_add [of st now d] storeInv_update [of st now u]
  by (simp add: handleAddCase_def handleUpdateCase_def processCollides_iff otherCollides_iff)

text \<open>
  At the sample store: a draft with process number P1 between blanks and an update of
  case 1 to process number P2 are both rejected with the store unchanged; a draft with
  the new number P3 and an update that keeps P1 are accepted and keep the invariant.
\<close>

lemma process_number_uniqueness_examples:
  "handleAddCase ''t'' (sampleCase 0 '' P1 '' ''Bob'') sampleState
     = ([DuplicateProcessOnAdd '' P1 ''], sampleState)
 \<and> handleUpdateCase ''t'' (sampleCase 1 ''P2'' ''Bob'') sampleState
     = ([DuplicateProcessOnUpdate ''P2''], sampleState)
 \<and> storeInv sampleState
 \<and> fst (handleAddCase ''t'' (sampleCase 0 ''P3'' ''Bob'') sampleState) = [CaseCreated ''P3'']
 \<and> storeInv (snd (handleAddCase ''t'' (sampleCase 0 ''P3'' ''Bob'') sampleState))
 \<and> fst (handleUpdateCase ''t'' (sampleCase 1 ''P1'' ''Bob'') sampleState) = []
 \<and> storeInv (snd (handleUpdateCase ''t'' (sampleCase 1 ''P1'' ''Bob'') sampleState))"
proof -
  have c1: "\<exists>c\<in>set (cases sampleState).
              trim (processoNumero c) = trim (processoNumero (sampleCase 0 '' P1 '' ''Bob''))"
    by (simp add: sampleState_cases trim_P1 trim_P1_spaces)
  have c2: "\<exists>c\<in>set (cases sampleState). id_case c \<noteq> id_case (sampleCase 1 ''P2'' ''Bob'')
              \<and> trim (processoNumero c) = trim (processoNumero (sampleCase 1 ''P2'' ''Bob''))"
    by (simp add: sampleState_cases trim_P2)
  have n1: "\<not> processCollides (cases sampleState) ''P3''"
    by (simp add: processCollides_iff sampleState_cases trim_P1 trim_P2 trim_P3)
  have n2: "\<not> otherCollides (cases sampleState) (sampleCase 1 ''P1'' ''Bob'')"
    by (simp add: otherCollides_iff sampleState_cases trim_P1 trim_P2)
  note rej = process_number_uniqueness
    [of sampleState "sampleCase 0 '' P1 '' ''Bob''" "''t''" "sampleCase 1 ''P2'' ''Bob''"]
  note acc = process_number_uniqueness
    [of sampleState "sampleCase 0 ''P3'' ''Bob''" "''t''" "sampleCase 1 ''P1'' ''Bob''"]
  from rej c1 c2 have
    r: "handleAddCase ''t'' (sampleCase 0 '' P1 '' ''Bob'') sampleState
          = ([DuplicateProcessOnAdd '' P1 ''], sampleState)
      \<and> handleUpdateCase ''t'' (sampleCase 1 ''P2'' ''Bob'') sampleState
          = ([DuplicateProcessOnUpdate ''P2''], sampleState)"
    by simp
  have "lastCaseId sampleState = 2"
    by (simp add: sampleState_def)
  with acc storeInv_sampleState have
    a: "storeInv (snd (handleAddCase ''t'' (sampleCase 0 ''P3'' ''Bob'') sampleState))
      \<and> storeInv (snd (handleUpdateCase ''t'' (sampleCase 1 ''P1'' ''Bob'') sampleState))"
    by simp
  from n1 have f1: "fst (handleAddCase ''t'' (sampleCase 0 ''P3'' ''Bob'') sampleState)
                      = [CaseCreated ''P3'']"
    by (simp add: handleAddCase_def Let_def)
  from n2 have f2: "fst (handleUpdateCase ''t'' (sampleCase 1 ''P1'' ''Bob'') sampleState) = []"
    by (simp add: handleUpdateCase_def)
  from r a f1 f2 storeInv_sampleState show ?thesis by simp
qed

text \<open>
  Claim C3 fails for the bulk update.  The sample store has unique process numbers.  A
  bulk edit that gives case 1 the process number of case 2 is stored as it is, with no
  message: afterwards two stored cases carry process number P2.  \<open>handleAddCase\<close>,
  \<open>handleUpdateCase\<close> and \<open>handleImportCases\<close> compare process numbers before they
  store a case; \<open>handleUpdateMultipleCases\<close> does not.
\<close>

theorem bulk_update_breaks_uniqueness:
  "storeInv sampleState
 \<and> fst (handleUpdateMultipleCases [sampleCase 1 ''P2'' ''Alice''] sampleState) = []
 \<and> map processoNumero
       (cases (snd (handleUpdateMultipleCases [sampleCase 1 ''P2'' ''Alice''] sampleState)))
     = [''P2'', ''P2'']
 \<and> \<not> distinct (map (\<lambda>c. trim (processoNumero c))
        (cases (snd (handleUpdateMultipleCases [sampleCase 1 ''P2'' ''Alice''] sampleState))))
 \<and> \<not> storeInv (snd (handleUpdateMultipleCases [sampleCase 1 ''P2'' ''Alice''] sampleState))"
proof -
  have "updatedCaseMap [sampleCase 1 ''P2'' ''Alice''] 1 = Some (sampleCase 1 ''P2'' ''Alice'')"
       "updatedCaseMap [sampleCase 1 ''P2'' ''Alice''] 2 = None"
    by (simp_all add: updatedCaseMap_def)
  then have c: "cases (snd (handleUpdateMultipleCases [sampleCase 1 ''P2'' ''Alice''] sampleState))
                  = [sampleCase 2 ''P2'' ''Alice'', sampleCase 1 ''P2'' ''Alice'']"
    by (simp add: handleUpdateMultipleCases_def sampleState_cases)
  have d: "\<not> distinct (map (\<lambda>c. trim (processoNumero c))
        (cases (snd (handleUpdateMultipleCases [sampleCase 1 ''P2'' ''Alice''] sampleState))))"
    by (simp add: c)
  then have e: "\<not> storeInv (snd (handleUpdateMultipleCases [sampleCase 1 ''P2'' ''Alice''] sampleState))"
    by (simp add: storeInv_def)
  have f: "fst (handleUpdateMultipleCases [sampleCase 1 ''P2'' ''Alice''] sampleState) = []"
    by (simp add: handleUpdateMultipleCases_def)
  from storeInv_sampleState c d e f show ?thesis
    by simp
qed

text \<open>
  Claim C7.  A draft whose trimmed process number equals that of no stored case is
  accepted.  The stored case is the draft with five fields set: the id is the next number
  of the id counter, the display id is MST followed by that number padded with zeros to
  five digits, the owner is the fixed owner name, the co-responsible is the draft's
  assignee, and the log holds the one entry from the acting user to the draft's assignee
  with the time of the event and the draft's assigned deadline.  It is put in front of the
  stored cases, the counter moves to the new id, the success message is shown, and nothing
  else changes.  The number can be read back from the display id, which has eight
  characters below 100000, and in a store whose counter is not behind its ids the new id
  is fresh.  The counter is a JavaScript number: the statement is for the counters that
  count exactly, from -2^53 up to 2^53 - 1.
\<close>

theorem addCase_success:
  assumes "\<forall>c\<in>set (cases st). trim (processoNumero c) \<noteq> trim (processoNumero d)"
      and "- (2 ^ 53) \<le> lastCaseId st" and "lastCaseId st < 2 ^ 53"
  shows "(let newId = lastCaseId st + 1;
              newId2 = ''MST'' @ replicate (5 - length (String newId)) (CHR ''0'') @ String newId;
              nc = d\<lparr>id_case := newId,
                     id2 := newId2,
                     ownerName := ownerMsTributario,
                     coResponsibleName := Some (name d),
                     tramitationLog :=
                       Some [\<lparr>fromUser = name_user (currentUser st), toUser = name d,
                               timestamp = now, deadline = prazoDeterminado d\<rparr>]\<rparr>
          in handleAddCase now d st
               = ([CaseCreated (processoNumero d)],
                  st\<lparr>cases := nc # cases st, lastCaseId := newId\<rparr>)
           \<and> (0 \<le> newId \<longrightarrow> int (numberOf (drop 3 newId2)) = newId)
           \<and> (0 \<le> newId \<and> newId < 100000 \<longrightarrow> length newId2 = 8)
           \<and> (list_all (\<lambda>c. id_case c \<le> lastCaseId st) (cases st)
                \<longrightarrow> newId \<notin> id_case ` set (cases st)))"
proof -
  from assms(1) have nc: "\<not> processCollides (cases st) (processoNumero d)"
    by (simp add: processCollides_iff)
  note nx = getNextCaseId_exact [OF assms(2,3)]
  have fresh: "list_all (\<lambda>c. id_case c \<le> lastCaseId st) (cases st)
                 \<longrightarrow> lastCaseId st + 1 \<notin> id_case ` set (cases st)"
    by (auto simp: list_all_iff)
  have shape: "mkId2 (lastCaseId st + 1)
                 = ''MST'' @ replicate (5 - length (String (lastCaseId st + 1))) (CHR ''0'')
                           @ String (lastCaseId st + 1)"
    by (simp add: mkId2_def padStart_def)
  have dec: "0 \<le> lastCaseId st + 1
               \<longrightarrow> int (numberOf (drop 3 (''MST'' @ replicate (5 - length (String (lastCaseId st + 1)))
                        (CHR ''0'') @ String (lastCaseId st + 1)))) = lastCaseId st + 1"
    using mkId2_decode [of "lastCaseId st + 1"] unfolding shape by simp
  have len: "0 \<le> lastCaseId st + 1 \<and> lastCaseId st + 1 < 100000
               \<longrightarrow> length (''MST'' @ replicate (5 - length (String (lastCaseId st + 1)))
                        (CHR ''0'') @ String (lastCaseId st + 1)) = 8"
    using mkId2_length [of "lastCaseId st + 1"] unfolding shape by simp
  have run: "handleAddCase now d st
               = ([CaseCreated (processoNumero d)],
                  st\<lparr>cases := d\<lparr>id_case := lastCaseId st + 1,
                                 id2 := mkId2 (lastCaseId st + 1),
                                 ownerName := ownerMsTributario,
                                 coResponsibleName := Some (name d),
                                 tramitationLog :=
                                   Some [\<lparr>fromUser = name_user (currentUser st), toUser = name d,
                                           timestamp = now, deadline = prazoDeterminado d\<rparr>]\<rparr>
                               # cases st,
                      lastCaseId := lastCaseId st + 1\<rparr>)"
    using nc by (simp add: handleAddCase_def Let_def nx orStr_empty)
  show ?thesis
    unfolding Let_def using run fresh dec len unfolding shape by blast
qed

text \<open>
  At the sample store (last id 2), the draft with the new number P3 becomes case 3 with
  display id MST00003 at the head of the store.
\<close>

theorem addCase_success_witness:
  "handleAddCase ''t'' (sampleCase 0 ''P3'' ''Bob'') sampleState
     = ([CaseCreated ''P3''],
        sampleState\<lparr>cases :=
            (sampleCase 0 ''P3'' ''Bob'')
              \<lparr>id_case := 3, id2 := ''MST00003'', ownerName := ownerMsTributario,
               coResponsibleName := Some ''Bob'',
               tramitationLog := Some [\<lparr>fromUser = ''Alice'', toUser = ''Bob'',
                                        timestamp = ''t'', deadline = []\<rparr>]\<rparr>
            # cases sampleState,
          lastCaseId := 3\<rparr>)
 \<and> map id_case (cases (snd (handleAddCase ''t'' (sampleCase 0 ''P3'' ''Bob'') sampleState)))
     = [3, 2, 1]"
proof -
  have h: "\<forall>c\<in>set (cases sampleState).
             trim (processoNumero c) \<noteq> trim (processoNumero (sampleCase 0 ''P3'' ''Bob''))"
    by (simp add: sampleState_cases trim_P1 trim_P2 trim_P3)
  have l: "lastCaseId sampleState = 2" "name_user (currentUser sampleState) = ''Alice''"
    by (simp_all add: sampleState_def alice_def)
  have b1: "- (2 ^ 53) \<le> lastCaseId sampleState" and b2: "lastCaseId sampleState < 2 ^ 53"
    by (simp_all add: l)
  have d: "name (sampleCase 0 ''P3'' ''Bob'') = ''Bob''"
          "processoNumero (sampleCase 0 ''P3'' ''Bob'') = ''P3''"
          "prazoDeterminado (sampleCase 0 ''P3'' ''Bob'') = []"
    by (simp_all add: sampleCase_def blankCase_def)
  from addCase_success [OF h b1 b2, of "''t''"]
  have a: "handleAddCase ''t'' (sampleCase 0 ''P3'' ''Bob'') sampleState
     = ([CaseCreated ''P3''],
        sampleState\<lparr>cases :=
            (sampleCase 0 ''P3'' ''Bob'')
              \<lparr>id_case := 3, id2 := ''MST00003'', ownerName := ownerMsTributario,
               coResponsibleName := Some ''Bob'',
               tramitationLog := Some [\<lparr>fromUser = ''Alice'', toUser = ''Bob'',
                                        timestamp = ''t'', deadline = []\<rparr>]\<rparr>
            # cases sampleState,
          lastCaseId := 3\<rparr>)"
    by (simp add: Let_def l d String_3 replicate_4)
  show ?thesis
    by (simp add: a sampleState_cases)
qed

text \<open>
  Claim C8 as stated fails.  The size of the attachment is tested first and the read of
  the attachment comes before the target user is looked up, and the lookup runs only for
  a stored case with the given id.  At the sample store there is no user Carol, yet
  tramitating case 1 to Carol with a file above 2 MB shows the file-too-large message,
  with a file whose read fails it shows the read error, and tramitating case 7, which is
  not stored, shows no message at all.  None of the three shows the user-not-found
  message.
\<close>

theorem tramitate_unknown_user_counterexample:
  "find (\<lambda>u. name_user u = ''Carol'') (users sampleState) = None
 \<and> handleTramitateCase ''t'' 0 (ReadLoaded ''data'') 1 ''Carol'' ''2024-01-15'' (Some bigFile)
      sampleState = ([FileTooLarge], sampleState)
 \<and> handleTramitateCase ''t'' 0 ReadFailed 1 ''Carol'' ''2024-01-15'' (Some limitFile)
      sampleState = ([AttachmentReadError], sampleState)
 \<and> handleTramitateCase ''t'' 0 ReadFailed 7 ''Carol'' ''2024-01-15'' None
      sampleState = ([], sampleState)"
proof -
  have nf: "find (\<lambda>u. name_user u = ''Carol'') (users sampleState) = None"
    by (simp add: sampleState_def alice_def bob_def)
  have "handleTramitateCase ''t'' 0 ReadFailed 7 ''Carol'' ''2024-01-15'' None sampleState
          = ([], sampleState)"
    by (simp add: handleTramitateCase_def processTramitation_no_user_alerts [OF nf]
        sampleState_cases)
  with nf show ?thesis
    by (simp add: handleTramitateCase_def bigFile_def limitFile_def
        MAX_FILE_SIZE_BYTES_def MAX_FILE_SIZE_MB_def)
qed

text \<open>
  Claim C8, as amended.  \<open>handleTramitateCase\<close> returns the state as it was in each
  failure, and shows these messages.  An attachment larger than 2 MB is refused with the
  file-too-large message whatever the read of the file would give, so before any
  encoding, and whoever the target is.  When the read of an attachment within the limit
  fails or yields no content, the read error is shown and nothing is stored.  When no user
  has the target name, nothing is stored in any case; and once the attachment, if there is
  one, has passed the size test and has been read with content, the user-not-found
  message is shown once for every stored case with the given id: exactly once when the
  case is stored and ids are unique, not at all when no case has the id.
\<close>

theorem tramitate_failure_frame:
  "(\<forall>f. att = Some f \<and> size_file f > 2 * 1024 * 1024 \<longrightarrow>
       (\<forall>rd'. handleTramitateCase now nowMs rd' caseId toUserName dl att st = ([FileTooLarge], st)))
 \<and> (\<forall>f. att = Some f \<and> size_file f \<le> 2 * 1024 * 1024 \<longrightarrow>
       handleTramitateCase now nowMs ReadFailed caseId toUserName dl att st
         = ([AttachmentReadError], st)
     \<and> handleTramitateCase now nowMs (ReadLoaded []) caseId toUserName dl att st
         = ([AttachmentReadEmpty], st))
 \<and> (find (\<lambda>u. name_user u = toUserName) (users st) = None \<longrightarrow>
       snd (handleTramitateCase now nowMs rd caseId toUserName dl att st) = st
     \<and> ((att = None
          \<or> (\<exists>f ct. att = Some f \<and> size_file f \<le> 2 * 1024 * 1024 \<and> rd = ReadLoaded ct \<and> ct \<noteq> []))
         \<longrightarrow> handleTramitateCase now nowMs rd caseId toUserName dl att st
               = (map (\<lambda>c. UserNotFound toUserName)
                      (filter (\<lambda>c. id_case c = caseId) (cases st)), st)
           \<and> (distinct (map id_case (cases st)) \<and> caseId \<in> id_case ` set (cases st)
                \<longrightarrow> handleTramitateCase now nowMs rd caseId toUserName dl att st
                      = ([UserNotFound toUserName], st))
           \<and> (caseId \<notin> id_case ` set (cases st)
                \<longrightarrow> handleTramitateCase now nowMs rd caseId toUserName dl att st = ([], st))))"
proof (intro conjI impI allI)
  fix f rd'
  assume "att = Some f \<and> size_file f > 2 * 1024 * 1024"
  then show "handleTramitateCase now nowMs rd' caseId toUserName dl att st = ([FileTooLarge], st)"
    by (simp add: handleTramitateCase_def MAX_FILE_SIZE_BYTES_def MAX_FILE_SIZE_MB_def)
next
  fix f
  assume a: "att = Some f \<and> size_file f \<le> 2 * 1024 * 1024"
  then show "handleTramitateCase now nowMs ReadFailed caseId toUserName dl att st
         = ([AttachmentReadError], st)"
    by (simp add: handleTramitateCase_def MAX_FILE_SIZE_BYTES_def MAX_FILE_SIZE_MB_def)
  from a show "handleTramitateCase now nowMs (ReadLoaded []) caseId toUserName dl att st
         = ([AttachmentReadEmpty], st)"
    by (simp add: handleTramitateCase_def MAX_FILE_SIZE_BYTES_def MAX_FILE_SIZE_MB_def)
next
  assume nf: "find (\<lambda>u. name_user u = toUserName) (users st) = None"
  show "snd (handleTramitateCase now nowMs rd caseId toUserName dl att st) = st"
    using nf
    by (simp add: handleTramitateCase_def processTramitation_no_user
        split: option.splits readResult.splits)
  assume rd: "att = None
          \<or> (\<exists>f ct. att = Some f \<and> size_file f \<le> 2 * 1024 * 1024 \<and> rd = ReadLoaded ct \<and> ct \<noteq> [])"
  then have run: "\<exists>ct. handleTramitateCase now nowMs rd caseId toUserName dl att st
                     = processTramitation now nowMs st caseId toUserName dl att ct"
    by (auto simp: handleTramitateCase_def MAX_FILE_SIZE_BYTES_def MAX_FILE_SIZE_MB_def)
  then show all: "handleTramitateCase now nowMs rd caseId toUserName dl att st
               = (map (\<lambda>c. UserNotFound toUserName)
                      (filter (\<lambda>c. id_case c = caseId) (cases st)), st)"
    using processTramitation_no_user_alerts [OF nf] by auto
  {
    assume "distinct (map id_case (cases st)) \<and> caseId \<in> id_case ` set (cases st)"
    then have "length (filter (\<lambda>c. id_case c = caseId) (cases st)) = 1"
      by (simp add: filter_id_single)
    then obtain x where "filter (\<lambda>c. id_case c = caseId) (cases st) = [x]"
      by (cases "filter (\<lambda>c. id_case c = caseId) (cases st)") simp_all
    then show "handleTramitateCase now nowMs rd caseId toUserName dl att st
                      = ([UserNotFound toUserName], st)"
      by (simp add: all)
  }
  {
    assume "caseId \<notin> id_case ` set (cases st)"
    then show "handleTramitateCase now nowMs rd caseId toUserName dl att st = ([], st)"
      by (simp add: all filter_id_none)
  }
qed

text \<open>
  At the sample store there is no user Carol: tramitating case 1 to Carol shows the
  user-not-found message once and changes nothing, without an attachment and with a file
  of exactly 2 MB that has been read.  A file of 2097153 bytes is refused whether its read
  fails or succeeds, and a failed or empty read of the file of 2 MB changes nothing, even
  though Bob exists.
\<close>

theorem tramitate_failure_frame_witness:
  "handleTramitateCase ''t'' 0 ReadFailed 1 ''Carol'' ''2024-01-15'' None sampleState
     = ([UserNotFound ''Carol''], sampleState)
 \<and> handleTramitateCase ''t'' 0 (ReadLoaded ''data'') 1 ''Carol'' ''2024-01-15'' (Some limitFile)
     sampleState = ([UserNotFound ''Carol''], sampleState)
 \<and> handleTramitateCase ''t'' 0 (ReadLoaded ''data'') 1 ''Bob'' ''2024-01-15'' (Some bigFile) sampleState
     = ([FileTooLarge], sampleState)
 \<and> handleTramitateCase ''t'' 0 ReadFailed 1 ''Bob'' ''2024-01-15'' (Some limitFile) sampleState
     = ([AttachmentReadError], sampleState)
 \<and> handleTramitateCase ''t'' 0 (ReadLoaded []) 1 ''Bob'' ''2024-01-15'' (Some limitFile) sampleState
     = ([AttachmentReadEmpty], sampleState)"
proof -
  have nf: "find (\<lambda>u. name_user u = ''Carol'') (users sampleState) = None"
    by (simp add: sampleState_def alice_def bob_def)
  have ids: "distinct (map id_case (cases sampleState)) \<and> 1 \<in> id_case ` set (cases sampleState)"
    by (simp add: sampleState_cases)
  have big: "size_file bigFile > 2 * 1024 * 1024"
    by (simp add: bigFile_def)
  have ok: "size_file limitFile \<le> 2 * 1024 * 1024"
    by (simp add: limitFile_def)
  from tramitate_failure_frame
         [of None "''t''" 0 1 "''Carol''" "''2024-01-15''" sampleState ReadFailed] nf ids
  have a: "handleTramitateCase ''t'' 0 ReadFailed 1 ''Carol'' ''2024-01-15'' None sampleState
             = ([UserNotFound ''Carol''], sampleState)"
    by (simp add: sampleState_cases)
  from tramitate_failure_frame
         [of "Some limitFile" "''t''" 0 1 "''Carol''" "''2024-01-15''" sampleState
             "ReadLoaded ''data''"] nf ids ok
  have a': "handleTramitateCase ''t'' 0 (ReadLoaded ''data'') 1 ''Carol'' ''2024-01-15''
              (Some limitFile) sampleState = ([UserNotFound ''Carol''], sampleState)"
    by (simp add: sampleState_cases)
  from tramitate_failure_frame
         [of "Some bigFile" "''t''" 0 1 "''Bob''" "''2024-01-15''" sampleState ReadFailed] big
  have b: "handleTramitateCase ''t'' 0 (ReadLoaded ''data'') 1 ''Bob'' ''2024-01-15''
             (Some bigFile) sampleState = ([FileTooLarge], sampleState)"
    by simp
  from tramitate_failure_frame
         [of "Some limitFile" "''t''" 0 1 "''Bob''" "''2024-01-15''" sampleState ReadFailed] ok
  have c: "handleTramitateCase ''t'' 0 ReadFailed 1 ''Bob'' ''2024-01-15''
             (Some limitFile) sampleState = ([AttachmentReadError], sampleState)
         \<and> handleTramitateCase ''t'' 0 (ReadLoaded []) 1 ''Bob'' ''2024-01-15''
             (Some limitFile) sampleState = ([AttachmentReadEmpty], sampleState)"
    by simp
  from a a' b c show ?thesis by simp
qed

text \<open>
  Claim C9.  \<open>handleUpdateMultipleCases\<close> shows no message and changes only the list of
  cases, position by position: a stored case whose id occurs in the given list is replaced
  by the given record of that id as it is (the last one, if the id occurs more than once;
  no log entry is added to it), and a stored case whose id does not occur stays the same
  record.
\<close>

theorem updateMultiple_direct_replace:
  "(let st' = snd (handleUpdateMultipleCases updatedCases st) in
       fst (handleUpdateMultipleCases updatedCases st) = []
     \<and> users st' = users st \<and> currentUser st' = currentUser st \<and> lastCaseId st' = lastCaseId st
     \<and> length (cases st') = length (cases st)
     \<and> (\<forall>i < length (cases st).
          (id_case (cases st ! i) \<notin> id_case ` set updatedCases \<longrightarrow> cases st' ! i = cases st ! i)
        \<and> (id_case (cases st ! i) \<in> id_case ` set updatedCases \<longrightarrow>
             cases st' ! i = last (filter (\<lambda>u. id_case u = id_case (cases st ! i)) updatedCases)
           \<and> cases st' ! i \<in> set updatedCases
           \<and> id_case (cases st' ! i) = id_case (cases st ! i))))"
  using last_filter_id [of _ updatedCases]
  by (simp add: Let_def handleUpdateMultipleCases_def updatedCaseMap_None updatedCaseMap_Some)

text \<open>
  At the sample store, a bulk edit that hands over case 1 to Bob stores the given record
  as it is (its log stays absent) and keeps case 2.
\<close>

theorem updateMultiple_direct_replace_witness:
  "cases (snd (handleUpdateMultipleCases [sampleCase 1 ''P1'' ''Bob''] sampleState)) ! 0
     = sampleCase 2 ''P2'' ''Alice''
 \<and> cases (snd (handleUpdateMultipleCases [sampleCase 1 ''P1'' ''Bob''] sampleState)) ! 1
     = sampleCase 1 ''P1'' ''Bob''
 \<and> tramitationLog (cases (snd (handleUpdateMultipleCases [sampleCase 1 ''P1'' ''Bob''] sampleState)) ! 1)
     = None"
proof -
  let ?st' = "snd (handleUpdateMultipleCases [sampleCase 1 ''P1'' ''Bob''] sampleState)"
  from updateMultiple_direct_replace [of "[sampleCase 1 ''P1'' ''Bob'']" sampleState]
  have all: "\<forall>i < length (cases sampleState).
          (id_case (cases sampleState ! i) \<noteq> 1 \<longrightarrow> cases ?st' ! i = cases sampleState ! i)
        \<and> (id_case (cases sampleState ! i) = 1 \<longrightarrow>
             cases ?st' ! i = last (filter (\<lambda>u. id_case u = id_case (cases sampleState ! i))
                                           [sampleCase 1 ''P1'' ''Bob'']))"
    by (simp add: Let_def)
  from all [rule_format, of 0] all [rule_format, of 1]
  show ?thesis
    by (simp add: sampleState_cases)
qed


section \<open>Deadline classifier: helper lemmas\<close>

lemma startsWith_iff: "startsWith s k \<longleftrightarrow> (\<exists>b. s = k @ b)"
  by (induction s k rule: startsWith.induct) auto

lemma includes_str_iff: "includes_str s k \<longleftrightarrow> (\<exists>a b. s = a @ k @ b)"
proof (induction s)
  case Nil
  show ?case by auto
next
  case (Cons c cs)
  show ?case
  proof
    assume "includes_str (c # cs) k"
    then consider "startsWith (c # cs) k" | "includes_str cs k" by auto
    then show "\<exists>a b. c # cs = a @ k @ b"
    proof cases
      case 1
      then obtain b where "c # cs = k @ b" by (auto simp: startsWith_iff)
      then have "c # cs = [] @ k @ b" by simp
      then show ?thesis by blast
    next
      case 2
      then obtain a b where "cs = a @ k @ b" using Cons.IH by auto
      then have "c # cs = (c # a) @ k @ b" by simp
      then show ?thesis by blast
    qed
  next
    assume "\<exists>a b. c # cs = a @ k @ b"
    then obtain a b where ab: "c # cs = a @ k @ b" by auto
    show "includes_str (c # cs) k"
    proof (cases a)
      case Nil
      then have "startsWith (c # cs) k" using ab by (auto simp: startsWith_iff)
      then show ?thesis by simp
    next
      case (Cons x xs)
      then have "cs = xs @ k @ b" using ab by simp
      then have "includes_str cs k" using Cons.IH by auto
      then show ?thesis by simp
    qed
  qed
qed

lemma toLowerCase_append: "toLowerCase (a @ b) = toLowerCase a @ toLowerCase b"
  by (simp add: toLowerCase_def)

lemma includes_lower_iff:
  "includes_str (toLowerCase s) k \<longleftrightarrow> (\<exists>pre w post. s = pre @ w @ post \<and> toLowerCase w = k)"
proof
  assume "includes_str (toLowerCase s) k"
  then obtain a b where ab: "map lowerChar s = a @ k @ b"
    by (auto simp: includes_str_iff toLowerCase_def)
  let ?w = "take (length k) (drop (length a) s)"
  have "map lowerChar ?w = take (length k) (drop (length a) (map lowerChar s))"
    by (simp add: take_map drop_map)
  also have "\<dots> = k" by (simp add: ab)
  finally have w: "toLowerCase ?w = k" by (simp add: toLowerCase_def)
  have "s = take (length a) s @ ?w @ drop (length k) (drop (length a) s)"
    by (simp only: append_take_drop_id)
  with w show "\<exists>pre w post. s = pre @ w @ post \<and> toLowerCase w = k"
    by blast
next
  assume "\<exists>pre w post. s = pre @ w @ post \<and> toLowerCase w = k"
  then obtain pre w post where "s = pre @ w @ post" "toLowerCase w = k" by blast
  then have "toLowerCase s = toLowerCase pre @ k @ toLowerCase post"
    by (simp add: toLowerCase_append)
  then show "includes_str (toLowerCase s) k"
    unfolding includes_str_iff by blast
qed

lemma terminalLabel_iff:
  "terminalLabel s \<longleftrightarrow>
     (includes_str (toLowerCase s) concluido \<or> includes_str (toLowerCase s) ''finalizado''
      \<or> includes_str (toLowerCase s) ''transitado em julgado''
      \<or> includes_str (toLowerCase s) ''arquivado'')"
  by (simp add: terminalLabel_def terminalKeywords_def)

lemma status_terminal:
  "terminalLabel s \<Longrightarrow> getDeadlineStatus_Spreadsheet legacy tza now ds s = completed"
  "terminalLabel s \<Longrightarrow> getDeadlineStatus_Kpi legacy tza now ds s = completed"
  "terminalLabel s \<Longrightarrow> getDeadlineStatus_GlobalKpi legacy tza now ds s = completed"
  by (simp_all add: terminalLabel_iff getDeadlineStatus_Spreadsheet_def
      getDeadlineStatus_Kpi_def getDeadlineStatus_GlobalKpi_def Let_def)

lemma status_open:
  "\<not> terminalLabel s \<Longrightarrow> getDeadlineStatus_Spreadsheet legacy tza now ds s =
     (case ds of None \<Rightarrow> none
      | Some d \<Rightarrow> if d = [] then none else bucket tza now (deadline_Spreadsheet legacy tza d))"
  "\<not> terminalLabel s \<Longrightarrow> getDeadlineStatus_Kpi legacy tza now ds s =
     (case ds of None \<Rightarrow> none
      | Some d \<Rightarrow> if d = [] then none else bucket tza now (Date_string legacy d))"
  "\<not> terminalLabel s \<Longrightarrow> getDeadlineStatus_GlobalKpi legacy tza now ds s =
     (case ds of None \<Rightarrow> none
      | Some d \<Rightarrow> if d = [] then none else bucket tza now (Date_string legacy d))"
  by (simp_all add: terminalLabel_iff getDeadlineStatus_Spreadsheet_def
      getDeadlineStatus_Kpi_def getDeadlineStatus_GlobalKpi_def Let_def)

lemma bucket_None [simp]: "bucket tza now None = none"
  by (simp add: bucket_def setHours0_def)

lemma msPerDay_pos: "0 < msPerDay"
  by (simp add: msPerDay_def)

lemma setHours0_Some:
  "setHours0 tza (Some t) = Some dn \<Longrightarrow> dn = localDay tza t * msPerDay - tza"
  by (simp add: setHours0_def TimeClip_def localDay_def split: if_splits)

lemma ceil_multiple: "0 < m \<Longrightarrow> - ((- (k * m)) div m) = (k::int)"
proof -
  assume m: "0 < m"
  have "(- (k * m)) div m = ((- k) * m) div m" by simp
  also have "\<dots> = - k" using m by (simp only: nonzero_mult_div_cancel_right)
  finally show ?thesis by simp
qed

lemma bucket_days:
  assumes d: "setHours0 tza (Some t) \<noteq> None" and n: "setHours0 tza (Some now) \<noteq> None"
  shows "bucket tza now (Some t) = dayBucket (localDay tza t) (localDay tza now)"
proof -
  from d obtain dn where dn: "setHours0 tza (Some t) = Some dn" by auto
  from n obtain tn where tn: "setHours0 tza (Some now) = Some tn" by auto
  note dv = setHours0_Some [OF dn] and tv = setHours0_Some [OF tn]
  have diff: "dn - tn = (localDay tza t - localDay tza now) * msPerDay"
    by (simp add: dv tv algebra_simps)
  have less: "dn < tn \<longleftrightarrow> localDay tza t < localDay tza now"
    using msPerDay_pos by (simp add: dv tv)
  have ceil: "- ((- (dn - tn)) div msPerDay) = localDay tza t - localDay tza now"
    unfolding diff by (rule ceil_multiple [OF msPerDay_pos])
  have m: "(1000 * 3600 * 24 :: int) = msPerDay" by (simp add: msPerDay_def)
  show ?thesis
    unfolding bucket_def Let_def dn tn m
    using less ceil
    by (simp add: numLess_def numSub_def ceilDiv_def numLe_def dayBucket_def)
qed

lemma setHours0_None [simp]: "setHours0 tza None = None"
  by (simp add: setHours0_def)

lemma bucket_invalid: "setHours0 tza d = None \<Longrightarrow> bucket tza now d = none"
  by (simp add: bucket_def)

lemma terminalLabel_em_andamento: "\<not> terminalLabel ''Em andamento''"
  by code_simp

subsection \<open>Date texts of the form YYYY-MM-DD\<close>

lemma isDigit_not_sep: "isDigit c \<Longrightarrow> c \<noteq> CHR ''-'' \<and> c \<noteq> CHR ''/''"
  by (auto simp: isDigit_def)

lemma isDigit_not_space: "isDigit c \<Longrightarrow> \<not> isWhiteSpace c"
  by (auto simp: isDigit_def isWhiteSpace_def)

lemma isDigit_not_sign: "isDigit c \<Longrightarrow> c \<noteq> CHR ''+'' \<and> c \<noteq> CHR ''x'' \<and> c \<noteq> CHR ''X''"
  by (auto simp: isDigit_def)

lemma isDigit_radix10: "isDigit c \<Longrightarrow> isRadixDigit 10 c"
  by (auto simp: isDigit_def isRadixDigit_def digitValue_def Let_def)

lemma isDigit_value: "isDigit c \<Longrightarrow> the (digitValue c) = of_char c - 48"
  by (auto simp: isDigit_def digitValue_def Let_def)

lemma split_nonempty [simp]: "split_dash_slash s \<noteq> []"
  by (induction s) simp_all

lemma split_nosep:
  "\<forall>c\<in>set a. c \<noteq> CHR ''-'' \<and> c \<noteq> CHR ''/'' \<Longrightarrow>
     split_dash_slash (a @ r) = (a @ hd (split_dash_slash r)) # tl (split_dash_slash r)"
  by (induction a) simp_all

lemma split_digits_dash:
  "list_all isDigit a \<Longrightarrow> split_dash_slash (a @ CHR ''-'' # r) = a # split_dash_slash r"
  using split_nosep [of a "CHR ''-'' # r"] isDigit_not_sep
  by (auto simp: list_all_iff)

lemma split_digits_only:
  "list_all isDigit a \<Longrightarrow> split_dash_slash a = [a]"
  using split_nosep [of a "[]"] isDigit_not_sep
  by (auto simp: list_all_iff)

lemma iso_shape:
  assumes "length s = 10" and "s ! 4 = CHR ''-''" and "s ! 7 = CHR ''-''"
  shows "s = take 4 s @ CHR ''-'' # take 2 (drop 5 s) @ CHR ''-'' # drop 8 s"
proof -
  have a: "s = take 4 s @ s ! 4 # drop 5 s"
    using assms(1) id_take_nth_drop [of 4 s] by simp
  have "drop 5 s = take 2 (drop 5 s) @ (drop 5 s) ! 2 # drop 3 (drop 5 s)"
    using assms(1) id_take_nth_drop [of 2 "drop 5 s"] by simp
  then have b: "drop 5 s = take 2 (drop 5 s) @ s ! 7 # drop 8 s"
    using assms(1) by simp
  show ?thesis
    using a b assms(2,3) by metis
qed

lemma split_iso:
  assumes "length s = 10" and "s ! 4 = CHR ''-''" and "s ! 7 = CHR ''-''"
    and "list_all isDigit (take 4 s)" and "list_all isDigit (take 2 (drop 5 s))"
    and "list_all isDigit (drop 8 s)"
  shows "split_dash_slash s = [take 4 s, take 2 (drop 5 s), drop 8 s]"
proof -
  have "split_dash_slash (take 4 s @ CHR ''-'' # take 2 (drop 5 s) @ CHR ''-'' # drop 8 s)
          = [take 4 s, take 2 (drop 5 s), drop 8 s]"
    using assms(4-6) by (simp add: split_digits_dash split_digits_only)
  with iso_shape [OF assms(1-3)] show ?thesis by simp
qed

lemma foldl_digits:
  "list_all isDigit z \<Longrightarrow>
     foldl (\<lambda>a c. 10 * a + the (digitValue c)) n z = foldl (\<lambda>a c. 10 * a + (of_char c - 48)) n z"
  by (induction z arbitrary: n) (simp_all add: isDigit_value)

lemma parseInt_digits:
  assumes "z \<noteq> []" and "list_all isDigit z"
  shows "parseInt z = Some (int (numberOf z))"
proof -
  obtain c cs where z: "z = c # cs" using assms(1) by (cases z) auto
  have c: "isDigit c" using assms(2) z by simp
  have dw: "dropWhile isWhiteSpace z = z"
    using c z by (simp add: isDigit_not_space)
  have nohex: "\<not> (2 \<le> length z \<and> (take 2 z = ''0x'' \<or> take 2 z = ''0X''))"
  proof (cases cs)
    case Nil
    then show ?thesis using z by simp
  next
    case (Cons d ds)
    then have "isDigit d" using assms(2) z by simp
    then show ?thesis using z Cons isDigit_not_sign [of d] by auto
  qed
  have tw: "takeWhile (isRadixDigit 10) z = z"
    using assms(2) by (auto simp: list_all_iff isDigit_radix10)
  have hd: "hd z \<noteq> CHR ''-''" "hd z \<noteq> CHR ''+''"
    using c z isDigit_not_sep [of c] isDigit_not_sign [of c] by auto
  have nohex': "(2 \<le> length z \<and> (take 2 z = ''0x'' \<or> take 2 z = ''0X'')) = False"
    using nohex by simp
  have S1: "(if z \<noteq> [] \<and> (hd z = CHR ''+'' \<or> hd z = CHR ''-'') then tl z else z) = z"
    using hd by simp
  have sg: "(if z \<noteq> [] \<and> hd z = CHR ''-'' then - 1 else (1::int)) = 1"
    using hd by simp
  show ?thesis
    unfolding parseInt_def Let_def dw S1 sg nohex' if_False tw
    using assms(1)
    by (simp add: foldl_digits [OF assms(2)] numberOf_def)
qed

lemma numberOf_bound: "list_all isDigit z \<Longrightarrow> numberOf z < 10 ^ length z"
proof (induction z rule: rev_induct)
  case Nil
  show ?case by (simp add: numberOf_def)
next
  case (snoc c z)
  then have "numberOf z < 10 ^ length z" and "isDigit c" by simp_all
  moreover from \<open>isDigit c\<close> have "of_char c - 48 < (10::nat)"
    by (auto simp: isDigit_def)
  ultimately show ?case
    by (simp add: numberOf_snoc)
qed


lemma DayFromYear_bound:
  assumes "0 \<le> y" and "y \<le> 9999"
  shows "- 720000 \<le> DayFromYear y \<and> DayFromYear y \<le> 2940000"
proof -
  have a: "(- 1969) div 4 \<le> (y - 1969) div 4" "(y - 1969) div 4 \<le> 8030 div (4::int)"
    using assms by (intro zdiv_mono1; simp)+
  have b: "(- 1901) div 100 \<le> (y - 1901) div 100" "(y - 1901) div 100 \<le> 8098 div (100::int)"
    using assms by (intro zdiv_mono1; simp)+
  have c: "(- 1601) div 400 \<le> (y - 1601) div 400" "(y - 1601) div 400 \<le> 8398 div (400::int)"
    using assms by (intro zdiv_mono1; simp)+
  from a b c assms show ?thesis
    unfolding DayFromYear_def by simp
qed

lemma month_cases:
  assumes "0 \<le> mn" and "mn \<le> (11::int)"
  shows "mn = 0 \<or> mn = 1 \<or> mn = 2 \<or> mn = 3 \<or> mn = 4 \<or> mn = 5 \<or> mn = 6 \<or> mn = 7
       \<or> mn = 8 \<or> mn = 9 \<or> mn = 10 \<or> mn = 11"
  using assms by presburger

lemma monthStart_bound:
  assumes "0 \<le> mn" and "mn \<le> 11"
  shows "0 \<le> monthStart mn l \<and> monthStart mn l \<le> 335"
  using month_cases [OF assms] by (auto simp: monthStart_def)

lemma DaysInMonth_le:
  assumes "0 \<le> mn" and "mn \<le> 11"
  shows "DaysInMonth y mn \<le> 31"
  using month_cases [OF assms] by (auto simp: DaysInMonth_def)

lemma MakeDay_bound:
  assumes "0 \<le> y" "y \<le> 9999" "0 \<le> mn" "mn \<le> 11" "1 \<le> d" "d \<le> 31"
  shows "\<bar>MakeDay y mn d\<bar> \<le> 3000000"
proof -
  have m: "mn div 12 = 0" "mn mod 12 = mn" using assms(3,4) by simp_all
  have "MakeDay y mn d = DayFromYear y + monthStart mn (InLeapYear y) + d - 1"
    by (simp add: MakeDay_def Let_def m)
  with DayFromYear_bound [OF assms(1,2)] monthStart_bound [OF assms(3,4), of "InLeapYear y"]
    assms(5,6)
  show ?thesis by linarith
qed

lemma TimeClip_day:
  assumes "\<bar>D\<bar> \<le> 3000000" and "0 \<le> tza" and "tza < msPerDay"
  shows "TimeClip (D * msPerDay) = Some (D * msPerDay)"
    and "TimeClip (D * msPerDay - tza) = Some (D * msPerDay - tza)"
  using assms by (simp_all add: TimeClip_def msPerDay_def)

lemma setHours0_local_midnight:
  "setHours0 tza (Some (D * msPerDay - tza)) = TimeClip (D * msPerDay - tza)"
  using msPerDay_pos by (simp add: setHours0_def)

lemma setHours0_utc_midnight:
  assumes "0 \<le> tza" and "tza < msPerDay"
  shows "setHours0 tza (Some (D * msPerDay)) = TimeClip (D * msPerDay - tza)"
proof -
  have "(D * msPerDay + tza) div msPerDay = D"
    using assms by (simp add: div_pos_pos_trivial)
  then show ?thesis by (simp add: setHours0_def)
qed

lemma bucket_cong_normal:
  "setHours0 tza x = setHours0 tza y \<Longrightarrow> bucket tza now x = bucket tza now y"
  by (simp add: bucket_def)

lemma iso_dates_day:
  assumes iso: "isoDateOnly ds = Some t'" and y100: "100 \<le> numberOf (take 4 ds)"
  shows "\<exists>D. \<bar>D\<bar> \<le> 3000000 \<and> t' = D * msPerDay
           \<and> D = MakeDay (int (numberOf (take 4 ds))) (int (numberOf (take 2 (drop 5 ds))) - 1)
                       (int (numberOf (drop 8 ds)))
           \<and> Date_string legacy ds = Some (D * msPerDay)
           \<and> deadline_Spreadsheet legacy tza ds = TimeClip (D * msPerDay - tza)"
proof -
  let ?a = "take 4 ds" and ?b = "take 2 (drop 5 ds)" and ?c = "drop 8 ds"
  let ?Y = "int (numberOf ?a)" and ?M = "int (numberOf ?b)" and ?D = "int (numberOf ?c)"
  from iso have sh: "length ds = 10" "ds ! 4 = CHR ''-''" "ds ! 7 = CHR ''-''"
    "list_all isDigit ?a" "list_all isDigit ?b" "list_all isDigit ?c"
    by (simp_all add: isoDateOnly_def split: if_splits)
  with iso have rg: "1 \<le> ?M" "?M \<le> 12" "1 \<le> ?D" "?D \<le> DaysInMonth ?Y (?M - 1)"
    and t': "t' = MakeDay ?Y (?M - 1) ?D * msPerDay"
    by (simp_all add: isoDateOnly_def Let_def split: if_splits)
  have d31: "?D \<le> 31" using DaysInMonth_le [of "?M - 1" ?Y] rg by linarith
  have "numberOf ?a < 10 ^ length ?a" using sh(4) by (rule numberOf_bound)
  then have y: "?Y \<le> 9999" "0 \<le> ?Y" using sh(1) by simp_all
  have bd: "\<bar>MakeDay ?Y (?M - 1) ?D\<bar> \<le> 3000000"
    using y rg d31 by (intro MakeDay_bound) simp_all
  have ne: "?a \<noteq> []" "?b \<noteq> []" "?c \<noteq> []" using sh(1) by auto
  have p: "parseInt ?a = Some ?Y" "parseInt ?b = Some ?M" "parseInt ?c = Some ?D"
    using ne sh(4-6) by (simp_all add: parseInt_digits)
  have sp: "split_dash_slash ds = [?a, ?b, ?c]"
    using sh by (rule split_iso)
  have la: "length ?a = 4" using sh(1) by simp
  have "TimeClip (MakeDay ?Y (?M - 1) ?D * msPerDay) = Some (MakeDay ?Y (?M - 1) ?D * msPerDay)"
    using bd by (simp add: TimeClip_def msPerDay_def)
  then have k: "Date_string legacy ds = Some (MakeDay ?Y (?M - 1) ?D * msPerDay)"
    using iso t' by (simp add: Date_string_def)
  have s: "deadline_Spreadsheet legacy tza ds
             = TimeClip (MakeDay ?Y (?M - 1) ?D * msPerDay - tza)"
    using y100 la
    by (simp add: deadline_Spreadsheet_def sp p Let_def numSub_def Date_ymd_def)
  from bd k s t' show ?thesis by blast
qed

lemma TimeClip_near_day:
  assumes "\<bar>D\<bar> \<le> 3000001" and "\<bar>tza\<bar> \<le> msPerDay"
  shows "TimeClip (D * msPerDay - tza) = Some (D * msPerDay - tza)"
  using assms by (simp add: TimeClip_def msPerDay_def)

lemma localDay_local_midnight: "localDay tza (D * msPerDay - tza) = D"
  using msPerDay_pos by (simp add: localDay_def)

lemma localDay_utc_midnight: "localDay tza (D * msPerDay) = D + tza div msPerDay"
  using msPerDay_pos by (simp add: localDay_def)

lemma tza_div_bound:
  assumes "\<bar>tza\<bar> \<le> msPerDay"
  shows "- 1 \<le> tza div msPerDay \<and> tza div msPerDay \<le> 1"
proof -
  have "(- msPerDay) div msPerDay \<le> tza div msPerDay"
    using assms msPerDay_pos by (intro zdiv_mono1) simp_all
  moreover have "tza div msPerDay \<le> msPerDay div msPerDay"
    using assms msPerDay_pos by (intro zdiv_mono1) simp_all
  ultimately show ?thesis by (simp add: msPerDay_def)
qed

lemma spreadsheet_iso_calendar:
  assumes "\<not> terminalLabel label" and "isoDateOnly ds = Some t'"
    and "100 \<le> numberOf (take 4 ds)" and "\<bar>tza\<bar> \<le> msPerDay"
    and "setHours0 tza (Some now) \<noteq> None"
  shows "getDeadlineStatus_Spreadsheet legacy tza now (Some ds) label
           = dayBucket (t' div msPerDay) (localDay tza now)"
proof -
  from iso_dates_day [OF assms(2,3), of legacy tza] obtain D where
    D: "\<bar>D\<bar> \<le> 3000000" "t' = D * msPerDay"
       "deadline_Spreadsheet legacy tza ds = TimeClip (D * msPerDay - tza)"
    by blast
  have tc: "TimeClip (D * msPerDay - tza) = Some (D * msPerDay - tza)"
    using D(1) assms(4) by (intro TimeClip_near_day) simp_all
  have v: "setHours0 tza (Some (D * msPerDay - tza)) \<noteq> None"
    by (simp add: setHours0_local_midnight tc)
  have ne: "ds \<noteq> []" using assms(2) by (auto simp: isoDateOnly_def)
  have "t' div msPerDay = D" using D(2) msPerDay_pos by simp
  then show ?thesis
    using assms(1) ne
    by (simp add: status_open D(3) tc bucket_days [OF v assms(5)] localDay_local_midnight)
qed

lemma dashboards_iso_utc:
  assumes "\<not> terminalLabel label" and "isoDateOnly ds = Some t'"
    and "100 \<le> numberOf (take 4 ds)" and "\<bar>tza\<bar> \<le> msPerDay"
    and "setHours0 tza (Some now) \<noteq> None"
  shows "getDeadlineStatus_Kpi legacy tza now (Some ds) label
           = dayBucket (t' div msPerDay + tza div msPerDay) (localDay tza now)"
    and "getDeadlineStatus_GlobalKpi legacy tza now (Some ds) label
           = dayBucket (t' div msPerDay + tza div msPerDay) (localDay tza now)"
proof -
  from iso_dates_day [OF assms(2,3), of legacy tza] obtain D where
    D: "\<bar>D\<bar> \<le> 3000000" "t' = D * msPerDay"
       "Date_string legacy ds = Some (D * msPerDay)"
    by blast
  let ?k = "tza div msPerDay"
  from tza_div_bound [OF assms(4)] D(1) have "\<bar>D + ?k\<bar> \<le> 3000001" by linarith
  then have tc: "TimeClip ((D + ?k) * msPerDay - tza) = Some ((D + ?k) * msPerDay - tza)"
    using assms(4) by (intro TimeClip_near_day) simp_all
  have "(D * msPerDay + tza) div msPerDay = D + ?k"
    using msPerDay_pos by simp
  then have v: "setHours0 tza (Some (D * msPerDay)) \<noteq> None"
    by (simp add: setHours0_def tc)
  have ne: "ds \<noteq> []" using assms(2) by (auto simp: isoDateOnly_def)
  have d: "t' div msPerDay = D" using D(2) msPerDay_pos by simp
  show "getDeadlineStatus_Kpi legacy tza now (Some ds) label
           = dayBucket (t' div msPerDay + tza div msPerDay) (localDay tza now)"
    using assms(1) ne
    by (simp add: status_open D(3) bucket_days [OF v assms(5)] localDay_utc_midnight d)
  show "getDeadlineStatus_GlobalKpi legacy tza now (Some ds) label
           = dayBucket (t' div msPerDay + tza div msPerDay) (localDay tza now)"
    using assms(1) ne
    by (simp add: status_open D(3) bucket_days [OF v assms(5)] localDay_utc_midnight d)
qed

lemma iso_agree:
  assumes "isoDateOnly ds = Some t'" and "100 \<le> numberOf (take 4 ds)"
    and "0 \<le> tza" and "tza < msPerDay"
  shows "bucket tza now (deadline_Spreadsheet legacy tza ds) = bucket tza now (Date_string legacy ds)"
proof -
  from iso_dates_day [OF assms(1,2), of legacy tza] obtain D where
    D: "\<bar>D\<bar> \<le> 3000000" "Date_string legacy ds = Some (D * msPerDay)"
       "deadline_Spreadsheet legacy tza ds = TimeClip (D * msPerDay - tza)"
    by blast
  note tc = TimeClip_day [OF D(1) assms(3,4)]
  show ?thesis
    by (rule bucket_cong_normal)
       (simp add: D(2,3) tc setHours0_local_midnight setHours0_utc_midnight [OF assms(3,4)])
qed

subsection \<open>Three pieces, one of them not a number\<close>

lemma Date_ymd_NaN:
  "y = None \<or> m = None \<or> d = None \<Longrightarrow> Date_ymd tza y m d = None"
  by (auto simp: Date_ymd_def split: option.splits)

lemma three_parts:
  assumes "length ps = 3" and "p \<in> set ps"
  shows "p = ps ! 0 \<or> p = ps ! 1 \<or> p = ps ! 2"
proof -
  from assms(1) obtain a b c where "ps = [a, b, c]"
    by (cases ps; cases "tl ps"; cases "tl (tl ps)") auto
  with assms(2) show ?thesis by auto
qed

lemma spreadsheet_part_not_number:
  assumes "length (split_dash_slash ds) = 3"
    and "p \<in> set (split_dash_slash ds)" and "parseInt p = None"
  shows "deadline_Spreadsheet legacy tza ds = None"
proof -
  from three_parts [OF assms(1,2)] assms(3)
  have "parseInt (split_dash_slash ds ! 0) = None \<or> parseInt (split_dash_slash ds ! 1) = None
      \<or> parseInt (split_dash_slash ds ! 2) = None"
    by auto
  then show ?thesis
    using assms(1)
    by (auto simp: deadline_Spreadsheet_def Let_def Date_ymd_NaN numSub_def)
qed

lemma spreadsheet_three_pieces:
  assumes "length (split_dash_slash ds) = 3"
  shows "deadline_Spreadsheet legacy tza ds = deadline_Spreadsheet noLegacy tza ds"
    and "getDeadlineStatus_Spreadsheet legacy tza now (Some ds) label
           = getDeadlineStatus_Spreadsheet noLegacy tza now (Some ds) label"
proof -
  show a: "deadline_Spreadsheet legacy tza ds = deadline_Spreadsheet noLegacy tza ds"
    using assms by (simp add: deadline_Spreadsheet_def Let_def)
  show "getDeadlineStatus_Spreadsheet legacy tza now (Some ds) label
           = getDeadlineStatus_Spreadsheet noLegacy tza now (Some ds) label"
    by (simp add: getDeadlineStatus_Spreadsheet_def Let_def a)
qed

section \<open>Deadline classifier: the claims\<close>

text \<open>
  Claim C5.  If the status label has a piece that equals one of the four terminal
  keywords once lower-cased (that is, the label contains a keyword whatever the case of
  its letters), each copy of the classifier answers \<open>completed\<close>: for an absent, an
  empty, an unreadable, a past and a future date text alike, in every time zone and at
  every time of evaluation.
\<close>

theorem terminal_status_is_completed:
  assumes "label = pre @ w @ post" and "toLowerCase w \<in> set terminalKeywords"
  shows "getDeadlineStatus_Spreadsheet legacy tza now dateString label = completed
       \<and> getDeadlineStatus_Kpi legacy tza now dateString label = completed
       \<and> getDeadlineStatus_GlobalKpi legacy tza now dateString label = completed"
proof -
  from assms have "includes_str (toLowerCase label) (toLowerCase w)"
    by (auto simp: includes_lower_iff)
  with assms(2) have "terminalLabel label"
    by (auto simp: terminalLabel_def list_ex_iff)
  then show ?thesis by (simp add: status_terminal)
qed

text \<open>
  A label with the first keyword in capitals (U+00CD is the capital accented I), with a
  date long past: completed, not
  overdue.
\<close>

theorem terminal_status_is_completed_witness:
  "getDeadlineStatus_Spreadsheet noLegacy brasiliaTZA noon_2024_01_15 (Some ''2020-01-01'')
     (''Processo '' @ ''CONCLU'' @ [CHR 0xCD] @ ''DO'' @ '' em 2020'') = completed
 \<and> getDeadlineStatus_Kpi noLegacy brasiliaTZA noon_2024_01_15 (Some ''2020-01-01'')
     (''Processo '' @ ''CONCLU'' @ [CHR 0xCD] @ ''DO'' @ '' em 2020'') = completed
 \<and> getDeadlineStatus_GlobalKpi noLegacy brasiliaTZA noon_2024_01_15 (Some ''2020-01-01'')
     (''Processo '' @ ''CONCLU'' @ [CHR 0xCD] @ ''DO'' @ '' em 2020'') = completed"
proof -
  have k: "toLowerCase (''CONCLU'' @ [CHR 0xCD] @ ''DO'') \<in> set terminalKeywords"
    by code_simp
  have l: "''Processo '' @ ''CONCLU'' @ [CHR 0xCD] @ ''DO'' @ '' em 2020''
             = ''Processo '' @ (''CONCLU'' @ [CHR 0xCD] @ ''DO'') @ '' em 2020''"
    by simp
  from terminal_status_is_completed [OF l k] show ?thesis .
qed

text \<open>
  Claim C6 fails in the spreadsheet copy.  A text of three numbers that name no day of the
  calendar is not a date: 2024-13-45 is no instance of the date format (there is no month
  13), and neither is 31/02/2024.  The spreadsheet copy does not answer \<open>none\<close> on them.
  It hands the three numbers to the \<open>Date\<close> constructor, which carries the excess over
  into the following months, so that 2024-13-45 is read as 14 February 2025 and
  31/02/2024 as 2 March 2024; the test for an invalid date that follows never sees them.
  At noon of 2024-01-15 in UTC-3, whatever the engine, both texts are classified
  \<open>on_track\<close>, and 30/02/2023 is classified \<open>overdue\<close>.  The two dashboard copies hand
  the text itself to the \<open>Date\<close> constructor and answer \<open>none\<close> where the engine rejects
  it.
\<close>

theorem spreadsheet_buckets_invalid_date:
  "isoDateOnly ''2024-13-45'' = None
 \<and> getDeadlineStatus_Spreadsheet legacy brasiliaTZA noon_2024_01_15 (Some ''2024-13-45'')
     ''Em andamento'' = on_track
 \<and> deadline_Spreadsheet legacy brasiliaTZA ''2024-13-45''
     = deadline_Spreadsheet legacy brasiliaTZA ''2025-02-14''
 \<and> getDeadlineStatus_Spreadsheet legacy brasiliaTZA noon_2024_01_15 (Some ''31/02/2024'')
     ''Em andamento'' = on_track
 \<and> deadline_Spreadsheet legacy brasiliaTZA ''31/02/2024''
     = deadline_Spreadsheet legacy brasiliaTZA ''2024-03-02''
 \<and> getDeadlineStatus_Spreadsheet legacy brasiliaTZA noon_2024_01_15 (Some ''30/02/2023'')
     ''Em andamento'' = overdue
 \<and> getDeadlineStatus_Kpi noLegacy brasiliaTZA noon_2024_01_15 (Some ''2024-13-45'')
     ''Em andamento'' = none
 \<and> getDeadlineStatus_GlobalKpi noLegacy brasiliaTZA noon_2024_01_15 (Some ''31/02/2024'')
     ''Em andamento'' = none"
proof -
  have l: "length (split_dash_slash ''2024-13-45'') = 3"
          "length (split_dash_slash ''2025-02-14'') = 3"
          "length (split_dash_slash ''31/02/2024'') = 3"
          "length (split_dash_slash ''2024-03-02'') = 3"
          "length (split_dash_slash ''30/02/2023'') = 3"
    by code_simp+
  have i: "isoDateOnly ''2024-13-45'' = None"
    by code_simp
  have a: "getDeadlineStatus_Spreadsheet noLegacy brasiliaTZA noon_2024_01_15 (Some ''2024-13-45'')
             ''Em andamento'' = on_track"
    by code_simp
  have a': "deadline_Spreadsheet noLegacy brasiliaTZA ''2024-13-45''
              = deadline_Spreadsheet noLegacy brasiliaTZA ''2025-02-14''"
    by code_simp
  have b: "getDeadlineStatus_Spreadsheet noLegacy brasiliaTZA noon_2024_01_15 (Some ''31/02/2024'')
             ''Em andamento'' = on_track"
    by code_simp
  have b': "deadline_Spreadsheet noLegacy brasiliaTZA ''31/02/2024''
              = deadline_Spreadsheet noLegacy brasiliaTZA ''2024-03-02''"
    by code_simp
  have c: "getDeadlineStatus_Spreadsheet noLegacy brasiliaTZA noon_2024_01_15 (Some ''30/02/2023'')
             ''Em andamento'' = overdue"
    by code_simp
  have d: "getDeadlineStatus_Kpi noLegacy brasiliaTZA noon_2024_01_15 (Some ''2024-13-45'')
             ''Em andamento'' = none"
    by code_simp
  have e: "getDeadlineStatus_GlobalKpi noLegacy brasiliaTZA noon_2024_01_15 (Some ''31/02/2024'')
             ''Em andamento'' = none"
    by code_simp
  note g = spreadsheet_three_pieces [where legacy = legacy and tza = brasiliaTZA]
  show ?thesis
    unfolding g(2) [OF l(1)] g(2) [OF l(3)] g(2) [OF l(5)]
      g(1) [OF l(1)] g(1) [OF l(2)] g(1) [OF l(3)] g(1) [OF l(4)]
    using i a a' b b' c d e by blast
qed

text \<open>
  What holds of the claim.  For a label without terminal keyword, each copy answers
  \<open>none\<close> when the date text is absent, when it is empty, and when the date made from it
  is invalid (\<open>isNaN\<close> of the time value after \<open>setHours\<close>).  For the spreadsheet copy
  this covers every text of three pieces one of which does not begin with a number.
\<close>

lemma absent_or_invalid_is_unset:
  assumes "\<not> terminalLabel label"
  shows "((dateString = None \<or> dateString = Some []
           \<or> (\<exists>ds. dateString = Some ds \<and> setHours0 tza (deadline_Spreadsheet legacy tza ds) = None))
          \<longrightarrow> getDeadlineStatus_Spreadsheet legacy tza now dateString label = none)
       \<and> ((\<exists>ds p. dateString = Some ds \<and> length (split_dash_slash ds) = 3
                    \<and> p \<in> set (split_dash_slash ds) \<and> parseInt p = None)
          \<longrightarrow> getDeadlineStatus_Spreadsheet legacy tza now dateString label = none)
       \<and> ((dateString = None \<or> dateString = Some []
           \<or> (\<exists>ds. dateString = Some ds \<and> setHours0 tza (Date_string legacy ds) = None))
          \<longrightarrow> getDeadlineStatus_Kpi legacy tza now dateString label = none
            \<and> getDeadlineStatus_GlobalKpi legacy tza now dateString label = none)"
proof -
  have "getDeadlineStatus_Spreadsheet legacy tza now (Some ds) label = none"
    if "length (split_dash_slash ds) = 3" "p \<in> set (split_dash_slash ds)" "parseInt p = None"
    for ds p
    using assms spreadsheet_part_not_number [OF that, of legacy tza]
    by (simp add: status_open)
  then show ?thesis
    using assms by (auto simp: status_open bucket_invalid)
qed

text \<open>
  With the label 'Em andamento': no date text, an empty one, a word, and three pieces
  that are not numbers all give \<open>none\<close>.
\<close>

lemma absent_or_invalid_is_unset_examples:
  "getDeadlineStatus_Spreadsheet noLegacy brasiliaTZA noon_2024_01_15 None ''Em andamento'' = none
 \<and> getDeadlineStatus_Kpi noLegacy brasiliaTZA noon_2024_01_15 (Some []) ''Em andamento'' = none
 \<and> getDeadlineStatus_Spreadsheet noLegacy brasiliaTZA noon_2024_01_15 (Some ''a-b-c'') ''Em andamento'' = none
 \<and> getDeadlineStatus_GlobalKpi noLegacy brasiliaTZA noon_2024_01_15 (Some ''amanha'') ''Em andamento'' = none"
proof -
  note t = terminalLabel_em_andamento
  have s: "setHours0 brasiliaTZA (deadline_Spreadsheet noLegacy brasiliaTZA ''a-b-c'') = None"
    by code_simp
  have g: "setHours0 brasiliaTZA (Date_string noLegacy ''amanha'') = None"
    by code_simp
  from absent_or_invalid_is_unset [OF t, of None brasiliaTZA noLegacy noon_2024_01_15]
  have a: "getDeadlineStatus_Spreadsheet noLegacy brasiliaTZA noon_2024_01_15 None ''Em andamento'' = none"
    by simp
  from absent_or_invalid_is_unset [OF t, of "Some []" brasiliaTZA noLegacy noon_2024_01_15]
  have b: "getDeadlineStatus_Kpi noLegacy brasiliaTZA noon_2024_01_15 (Some []) ''Em andamento'' = none"
    by simp
  from absent_or_invalid_is_unset [OF t, of "Some ''a-b-c''" brasiliaTZA noLegacy noon_2024_01_15] s
  have c: "getDeadlineStatus_Spreadsheet noLegacy brasiliaTZA noon_2024_01_15 (Some ''a-b-c'')
             ''Em andamento'' = none"
    by simp
  from absent_or_invalid_is_unset [OF t, of "Some ''amanha''" brasiliaTZA noLegacy noon_2024_01_15] g
  have d: "getDeadlineStatus_GlobalKpi noLegacy brasiliaTZA noon_2024_01_15 (Some ''amanha'')
             ''Em andamento'' = none"
    by simp
  from a b c d show ?thesis by simp
qed

text \<open>
  What each copy does with a valid date.  For a label without terminal keyword and a date
  text that is not empty, let the copy's date be valid (its time value \<open>t\<close> is a number
  and stays one after \<open>setHours\<close>), and let the same hold for the time of evaluation.  Then the answer
  depends only on the local calendar days of \<open>t\<close> and of now, the time of day of both
  being dropped: \<open>overdue\<close> when the day of \<open>t\<close> is before today, \<open>due_soon\<close> when it is
  today or at most 7 days ahead, \<open>on_track\<close> beyond.  The difference of the two day
  numbers is the rounded-up quotient that the code computes from the two midnights.
\<close>

lemma classify_by_local_day:
  assumes "\<not> terminalLabel label" and "ds \<noteq> []" and "setHours0 tza (Some now) \<noteq> None"
  shows "(\<forall>t. deadline_Spreadsheet legacy tza ds = Some t \<and> setHours0 tza (Some t) \<noteq> None
            \<longrightarrow> getDeadlineStatus_Spreadsheet legacy tza now (Some ds) label
                  = dayBucket (localDay tza t) (localDay tza now))
       \<and> (\<forall>t. Date_string legacy ds = Some t \<and> setHours0 tza (Some t) \<noteq> None
            \<longrightarrow> getDeadlineStatus_GlobalKpi legacy tza now (Some ds) label
                  = dayBucket (localDay tza t) (localDay tza now)
              \<and> getDeadlineStatus_Kpi legacy tza now (Some ds) label
                  = dayBucket (localDay tza t) (localDay tza now))
       \<and> dayBucket (localDay tza now) (localDay tza now) = due_soon
       \<and> (\<forall>t. setHours0 tza (Some t) \<noteq> None
            \<longrightarrow> ceilDiv (numSub (setHours0 tza (Some t)) (setHours0 tza (Some now))) (1000 * 3600 * 24)
                  = Some (localDay tza t - localDay tza now))"
proof (intro conjI allI impI)
  fix t
  assume "deadline_Spreadsheet legacy tza ds = Some t \<and> setHours0 tza (Some t) \<noteq> None"
  then show "getDeadlineStatus_Spreadsheet legacy tza now (Some ds) label
               = dayBucket (localDay tza t) (localDay tza now)"
    using assms by (simp add: status_open bucket_days)
next
  fix t
  assume a: "Date_string legacy ds = Some t \<and> setHours0 tza (Some t) \<noteq> None"
  then show "getDeadlineStatus_GlobalKpi legacy tza now (Some ds) label
               = dayBucket (localDay tza t) (localDay tza now)"
    using assms by (simp add: status_open bucket_days)
  from a show "getDeadlineStatus_Kpi legacy tza now (Some ds) label
               = dayBucket (localDay tza t) (localDay tza now)"
    using assms by (simp add: status_open bucket_days)
next
  show "dayBucket (localDay tza now) (localDay tza now) = due_soon"
    by (simp add: dayBucket_def)
next
  fix t
  assume "setHours0 tza (Some t) \<noteq> None"
  then obtain dn where dn: "setHours0 tza (Some t) = Some dn" by auto
  from assms(3) obtain tn where tn: "setHours0 tza (Some now) = Some tn" by auto
  have "dn - tn = (localDay tza t - localDay tza now) * msPerDay"
    by (simp add: setHours0_Some [OF dn] setHours0_Some [OF tn] algebra_simps)
  then have "- ((- (dn - tn)) div msPerDay) = localDay tza t - localDay tza now"
    by (simp only: ceil_multiple [OF msPerDay_pos])
  then show "ceilDiv (numSub (setHours0 tza (Some t)) (setHours0 tza (Some now))) (1000 * 3600 * 24)
               = Some (localDay tza t - localDay tza now)"
    by (simp add: dn tn numSub_def ceilDiv_def msPerDay_def)
qed

text \<open>
  At noon of 2024-01-15 in UTC-3, the spreadsheet copy puts the texts 2024-01-14,
  2024-01-15, 2024-01-22 and 2024-01-23 into overdue, due soon, due soon and on track;
  the global dashboard copy reads 2024-01-16 as UTC midnight, which is the local day
  2024-01-15, and answers due soon.
\<close>

lemma classify_by_local_day_examples:
  "getDeadlineStatus_Spreadsheet noLegacy brasiliaTZA noon_2024_01_15 (Some ''2024-01-14'')
     ''Em andamento'' = overdue
 \<and> getDeadlineStatus_Spreadsheet noLegacy brasiliaTZA noon_2024_01_15 (Some ''2024-01-15'')
     ''Em andamento'' = due_soon
 \<and> getDeadlineStatus_Spreadsheet noLegacy brasiliaTZA noon_2024_01_15 (Some ''2024-01-22'')
     ''Em andamento'' = due_soon
 \<and> getDeadlineStatus_Spreadsheet noLegacy brasiliaTZA noon_2024_01_15 (Some ''2024-01-23'')
     ''Em andamento'' = on_track
 \<and> getDeadlineStatus_GlobalKpi noLegacy brasiliaTZA noon_2024_01_15 (Some ''2024-01-16'')
     ''Em andamento'' = due_soon"
proof -
  note t = terminalLabel_em_andamento
  have n: "setHours0 brasiliaTZA (Some noon_2024_01_15) \<noteq> None"
    by code_simp
  have ln: "localDay brasiliaTZA noon_2024_01_15 = 19737"
    by code_simp
  have d14: "deadline_Spreadsheet noLegacy brasiliaTZA ''2024-01-14'' = Some 1705201200000"
    and d15: "deadline_Spreadsheet noLegacy brasiliaTZA ''2024-01-15'' = Some 1705287600000"
    and d22: "deadline_Spreadsheet noLegacy brasiliaTZA ''2024-01-22'' = Some 1705892400000"
    and d23: "deadline_Spreadsheet noLegacy brasiliaTZA ''2024-01-23'' = Some 1705978800000"
    and k16: "Date_string noLegacy ''2024-01-16'' = Some 1705363200000"
    by code_simp+
  have v: "setHours0 brasiliaTZA (Some 1705201200000) \<noteq> None"
          "setHours0 brasiliaTZA (Some 1705287600000) \<noteq> None"
          "setHours0 brasiliaTZA (Some 1705892400000) \<noteq> None"
          "setHours0 brasiliaTZA (Some 1705978800000) \<noteq> None"
          "setHours0 brasiliaTZA (Some 1705363200000) \<noteq> None"
    by code_simp+
  have l: "localDay brasiliaTZA 1705201200000 = 19736"
          "localDay brasiliaTZA 1705287600000 = 19737"
          "localDay brasiliaTZA 1705892400000 = 19744"
          "localDay brasiliaTZA 1705978800000 = 19745"
          "localDay brasiliaTZA 1705363200000 = 19737"
    by code_simp+
  have ne: "''2024-01-14'' \<noteq> []" "''2024-01-15'' \<noteq> []" "''2024-01-22'' \<noteq> []"
           "''2024-01-23'' \<noteq> []" "''2024-01-16'' \<noteq> []"
    by simp_all
  from classify_by_local_day [OF t ne(1) n, of noLegacy] d14 v(1)
  have a: "getDeadlineStatus_Spreadsheet noLegacy brasiliaTZA noon_2024_01_15 (Some ''2024-01-14'')
             ''Em andamento'' = dayBucket 19736 19737"
    by (simp add: l ln)
  from classify_by_local_day [OF t ne(2) n, of noLegacy] d15 v(2)
  have b: "getDeadlineStatus_Spreadsheet noLegacy brasiliaTZA noon_2024_01_15 (Some ''2024-01-15'')
             ''Em andamento'' = dayBucket 19737 19737"
    by (simp add: l ln)
  from classify_by_local_day [OF t ne(3) n, of noLegacy] d22 v(3)
  have c: "getDeadlineStatus_Spreadsheet noLegacy brasiliaTZA noon_2024_01_15 (Some ''2024-01-22'')
             ''Em andamento'' = dayBucket 19744 19737"
    by (simp add: l ln)
  from classify_by_local_day [OF t ne(4) n, of noLegacy] d23 v(4)
  have d: "getDeadlineStatus_Spreadsheet noLegacy brasiliaTZA noon_2024_01_15 (Some ''2024-01-23'')
             ''Em andamento'' = dayBucket 19745 19737"
    by (simp add: l ln)
  from classify_by_local_day [OF t ne(5) n, of noLegacy] k16 v(5)
  have e: "getDeadlineStatus_GlobalKpi noLegacy brasiliaTZA noon_2024_01_15 (Some ''2024-01-16'')
             ''Em andamento'' = dayBucket 19737 19737"
    by (simp add: l ln)
  from a b c d e show ?thesis
    by (simp add: dayBucket_def)
qed

text \<open>
  Claim C4 fails for the dashboard copy.  The text 2024-01-15 is day 19737, and at noon of
  2024-01-15 in UTC-3 today is day 19737 as well: the due date is today.  The copy of the
  global dashboard answers \<open>overdue\<close>, where the claim has \<open>due_soon\<close> and never
  \<open>overdue\<close>; the spreadsheet copy answers \<open>due_soon\<close>.  The dashboard copy hands the
  text to the \<open>Date\<close> constructor, which reads a date-only text as UTC midnight, the
  evening before in UTC-3, and \<open>setHours\<close> then goes back to the midnight of that
  earlier day.
\<close>

theorem dashboard_due_today_is_overdue:
  "isoDateOnly ''2024-01-15'' = Some (19737 * msPerDay)
 \<and> localDay brasiliaTZA noon_2024_01_15 = 19737
 \<and> getDeadlineStatus_GlobalKpi noLegacy brasiliaTZA noon_2024_01_15 (Some ''2024-01-15'')
     ''Em andamento'' = overdue
 \<and> getDeadlineStatus_Spreadsheet noLegacy brasiliaTZA noon_2024_01_15 (Some ''2024-01-15'')
     ''Em andamento'' = due_soon"
  by code_simp

text \<open>
  Claim C10 fails.  At noon of 2024-01-15 in UTC-3 the spreadsheet copy answers
  \<open>due_soon\<close> on the text 2024-01-15 and the two dashboard copies answer \<open>overdue\<close>,
  whatever the engine: the spreadsheet copy builds the local day from the three pieces,
  the dashboard copies hand the text to the \<open>Date\<close> constructor, which reads it as UTC
  midnight.  With an engine whose \<open>Date\<close> constructor rejects the text 15/01/2024 (it
  has no month 15), the spreadsheet copy reads that text as day, month and year and
  answers \<open>due_soon\<close>, while the dashboard copies answer \<open>none\<close>.
\<close>

theorem copies_disagree:
  "getDeadlineStatus_Spreadsheet noLegacy brasiliaTZA noon_2024_01_15 (Some ''2024-01-15'')
     ''Em andamento'' = due_soon
 \<and> getDeadlineStatus_Kpi noLegacy brasiliaTZA noon_2024_01_15 (Some ''2024-01-15'')
     ''Em andamento'' = overdue
 \<and> getDeadlineStatus_GlobalKpi noLegacy brasiliaTZA noon_2024_01_15 (Some ''2024-01-15'')
     ''Em andamento'' = overdue
 \<and> getDeadlineStatus_Spreadsheet noLegacy brasiliaTZA noon_2024_01_15 (Some ''15/01/2024'')
     ''Em andamento'' = due_soon
 \<and> getDeadlineStatus_Kpi noLegacy brasiliaTZA noon_2024_01_15 (Some ''15/01/2024'')
     ''Em andamento'' = none
 \<and> getDeadlineStatus_GlobalKpi noLegacy brasiliaTZA noon_2024_01_15 (Some ''15/01/2024'')
     ''Em andamento'' = none"
  by code_simp

text \<open>
  Where the copies agree.  The two dashboard copies give the same answer on every input.
  The spreadsheet copy gives that answer too whenever the label has a terminal keyword,
  the date text is absent or empty, the text does not fall into exactly three pieces at
  its hyphens and slashes (all copies then hand the text to the \<open>Date\<close> constructor), or
  the text is a date YYYY-MM-DD of an existing day from the year 0100 on and the local
  time is UTC or ahead of it by less than a day.
\<close>

lemma copies_agree:
  "getDeadlineStatus_Kpi legacy tza now dateString label
     = getDeadlineStatus_GlobalKpi legacy tza now dateString label
 \<and> ((terminalLabel label \<or> dateString = None \<or> dateString = Some []
       \<or> (\<exists>ds. dateString = Some ds \<and> length (split_dash_slash ds) \<noteq> 3)
       \<or> (\<exists>ds t'. dateString = Some ds \<and> isoDateOnly ds = Some t'
                    \<and> 100 \<le> numberOf (take 4 ds) \<and> 0 \<le> tza \<and> tza < msPerDay))
      \<longrightarrow> getDeadlineStatus_Spreadsheet legacy tza now dateString label
            = getDeadlineStatus_Kpi legacy tza now dateString label)"
proof (cases "terminalLabel label")
  case True
  then show ?thesis by (simp add: status_terminal)
next
  case False
  have "bucket tza now (deadline_Spreadsheet legacy tza ds) = bucket tza now (Date_string legacy ds)"
    if "isoDateOnly ds = Some t'" "100 \<le> numberOf (take 4 ds)" "0 \<le> tza" "tza < msPerDay"
    for ds t'
    using that by (rule iso_agree)
  with False show ?thesis
    by (auto simp: status_open deadline_Spreadsheet_def Let_def)
qed

text \<open>
  A text in one piece that the engine reads as 2024-01-15 is due soon for all three
  copies at noon of that day in UTC-3; so is the text 2024-01-15 at 13:00 of that day in
  UTC+1.
\<close>

lemma copies_agree_examples:
  "getDeadlineStatus_Spreadsheet sampleLegacy brasiliaTZA noon_2024_01_15 (Some ''Jan 15, 2024'')
     ''Em andamento'' = due_soon
 \<and> getDeadlineStatus_Kpi sampleLegacy brasiliaTZA noon_2024_01_15 (Some ''Jan 15, 2024'')
     ''Em andamento'' = due_soon
 \<and> getDeadlineStatus_GlobalKpi sampleLegacy brasiliaTZA noon_2024_01_15 (Some ''Jan 15, 2024'')
     ''Em andamento'' = due_soon
 \<and> getDeadlineStatus_Spreadsheet noLegacy berlinTZA 1705320000000 (Some ''2024-01-15'')
     ''Em andamento'' = due_soon
 \<and> getDeadlineStatus_Kpi noLegacy berlinTZA 1705320000000 (Some ''2024-01-15'')
     ''Em andamento'' = due_soon
 \<and> getDeadlineStatus_GlobalKpi noLegacy berlinTZA 1705320000000 (Some ''2024-01-15'')
     ''Em andamento'' = due_soon"
proof -
  have one: "length (split_dash_slash ''Jan 15, 2024'') \<noteq> 3"
    by code_simp
  have k1: "getDeadlineStatus_Kpi sampleLegacy brasiliaTZA noon_2024_01_15 (Some ''Jan 15, 2024'')
              ''Em andamento'' = due_soon"
    by code_simp
  have iso: "isoDateOnly ''2024-01-15'' = Some 1705276800000"
    by code_simp
  have y: "100 \<le> numberOf (take 4 ''2024-01-15'')"
    by code_simp
  have tz: "0 \<le> berlinTZA" "berlinTZA < msPerDay"
    by (simp_all add: berlinTZA_def msPerDay_def)
  have k2: "getDeadlineStatus_Kpi noLegacy berlinTZA 1705320000000 (Some ''2024-01-15'')
              ''Em andamento'' = due_soon"
    by code_simp
  from copies_agree [of sampleLegacy brasiliaTZA noon_2024_01_15 "Some ''Jan 15, 2024''"
                        "''Em andamento''"] one
  have a: "getDeadlineStatus_Kpi sampleLegacy brasiliaTZA noon_2024_01_15 (Some ''Jan 15, 2024'')
             ''Em andamento''
           = getDeadlineStatus_GlobalKpi sampleLegacy brasiliaTZA noon_2024_01_15
               (Some ''Jan 15, 2024'') ''Em andamento''"
    and b: "getDeadlineStatus_Spreadsheet sampleLegacy brasiliaTZA noon_2024_01_15
              (Some ''Jan 15, 2024'') ''Em andamento''
           = getDeadlineStatus_Kpi sampleLegacy brasiliaTZA noon_2024_01_15 (Some ''Jan 15, 2024'')
               ''Em andamento''"
    by simp_all
  from copies_agree [of noLegacy berlinTZA 1705320000000 "Some ''2024-01-15''"
                        "''Em andamento''"] iso y tz
  have c: "getDeadlineStatus_Kpi noLegacy berlinTZA 1705320000000 (Some ''2024-01-15'')
             ''Em andamento''
           = getDeadlineStatus_GlobalKpi noLegacy berlinTZA 1705320000000 (Some ''2024-01-15'')
               ''Em andamento''"
    and d: "getDeadlineStatus_Spreadsheet noLegacy berlinTZA 1705320000000 (Some ''2024-01-15'')
              ''Em andamento''
           = getDeadlineStatus_Kpi noLegacy berlinTZA 1705320000000 (Some ''2024-01-15'')
               ''Em andamento''"
    by simp_all
  from a b c d k1 k2 show ?thesis by simp
qed


end
